theory Spec2Isabelle
  imports Complex_Main
begin

section \<open>Nova model objects of mimic (mimic/model/nova\_objects.py)\<close>

text \<open>
  The theory embeds the module \<^verbatim>\<open>mimic/model/nova_objects.py\<close>: the \<^verbatim>\<open>Server\<close>
  class, the creation behaviors, the metadata override resolver and the operations of
  \<^verbatim>\<open>RegionalServerCollection\<close>.

  Python objects are shared by reference: a \<^verbatim>\<open>Server\<close> is held by the list
  \<^verbatim>\<open>collection.servers\<close> and, for a building server, by the closure scheduled on the
  clock. The model therefore keeps all server objects in an explicit store (\<open>heap\<close>, indexed
  by address) and lets the collection and the scheduled calls hold addresses.
  Exceptions are values of type \<open>error\<close>; every operation returns \<open>error + result\<close>.
\<close>

subsection \<open>JSON values and the library functions the module calls\<close>

text \<open>
  JSON documents as Python sees them after \<^verbatim>\<open>json.loads\<close>. Numbers are restricted to
  integers; an object is the list of its items in insertion order.
\<close>

datatype json =
    JNull
  | JBool bool
  | JNum int
  | JStr string
  | JArr "json list"
  | JObj "(string \<times> json) list"

datatype error =
    KeyError string
  | ValueError string
  | TypeError
  | AttributeError
  | RegexError

text \<open>
  Functions of the Python standard library and of \<^verbatim>\<open>mimic.util.helper\<close> that the module
  imports; they are parameters of the model.
  \<^item> \<open>loads\<close>: \<^verbatim>\<open>json.loads\<close>, \<open>None\<close> when it raises \<^verbatim>\<open>ValueError\<close>;
  \<^item> \<open>dumps\<close>: \<^verbatim>\<open>json.dumps\<close>;
  \<^item> \<open>float_of\<close>: \<^verbatim>\<open>float\<close> on a string, \<open>None\<close> when it raises \<^verbatim>\<open>ValueError\<close>
    (durations and times are exact rationals here, not IEEE doubles);
  \<^item> \<open>re_compile\<close>: \<^verbatim>\<open>re.compile(p).match\<close>, \<open>None\<close> when the pattern is rejected;
  \<^item> \<open>seconds_to_timestamp\<close>: the helper of that name.
\<close>

record lib =
  loads :: "string \<Rightarrow> json option"
  dumps :: "json \<Rightarrow> string"
  float_of :: "string \<Rightarrow> rat option"
  re_compile :: "string \<Rightarrow> (string \<Rightarrow> bool) option"
  seconds_to_timestamp :: "rat \<Rightarrow> string"

text \<open>Python's \<^verbatim>\<open>str\<close> on a non-negative integer.\<close>

definition digit :: "nat \<Rightarrow> char" where
  "digit n = ''0123456789'' ! n"

fun str_nat :: "nat \<Rightarrow> string" where
  "str_nat n = (if n < 10 then [digit n] else str_nat (n div 10) @ [digit (n mod 10)])"

declare str_nat.simps [simp del]

text \<open>Python dictionaries with string keys, as item lists: lookup is \<open>map_of\<close>.\<close>

fun setitem :: "'k \<Rightarrow> 'v \<Rightarrow> ('k \<times> 'v) list \<Rightarrow> ('k \<times> 'v) list" where
  "setitem k v [] = [(k, v)]"
| "setitem k v ((k', v') # kvs) =
     (if k = k' then (k, v) # kvs else (k', v') # setitem k v kvs)"

text \<open>\<^verbatim>\<open>d.get(k, default)\<close> on a dictionary.\<close>

definition dict_get :: "('k \<times> 'v) list \<Rightarrow> 'k \<Rightarrow> 'v \<Rightarrow> 'v" where
  "dict_get kvs k d = (case map_of kvs k of None \<Rightarrow> d | Some v \<Rightarrow> v)"

text \<open>\<^verbatim>\<open>x[k]\<close> on a parsed JSON value \<open>x\<close> with a string key.\<close>

fun getitem :: "json \<Rightarrow> string \<Rightarrow> error + json" where
  "getitem (JObj kvs) k = (case map_of kvs k of None \<Rightarrow> Inl (KeyError k) | Some v \<Rightarrow> Inr v)"
| "getitem _ k = Inl TypeError"

text \<open>Python truth value of a parsed JSON value.\<close>

fun truthy :: "json \<Rightarrow> bool" where
  "truthy JNull = False"
| "truthy (JBool b) = b"
| "truthy (JNum n) = (n \<noteq> 0)"
| "truthy (JStr s) = (s \<noteq> [])"
| "truthy (JArr xs) = (xs \<noteq> [])"
| "truthy (JObj kvs) = (kvs \<noteq> [])"

text \<open>\<^verbatim>\<open>x - 1\<close> on a parsed JSON value.\<close>

fun minus_one :: "json \<Rightarrow> error + json" where
  "minus_one (JNum n) = Inr (JNum (n - 1))"
| "minus_one (JBool b) = Inr (JNum ((if b then 1 else 0) - 1))"
| "minus_one _ = Inl TypeError"

subsection \<open>The creation request\<close>

text \<open>
  The body of a create-server request:
  \<^verbatim>\<open>{"server": {"name", "metadata", "flavorRef", "imageRef", "OS-DCF:diskConfig"}}\<close>.
  The code distinguishes a key that is absent, one that is \<^verbatim>\<open>null\<close> and one that has a
  value (\<^verbatim>\<open>d[k]\<close>, \<^verbatim>\<open>d.get(k)\<close>, \<^verbatim>\<open>d.get(k) or default\<close>), so each optional
  key is a \<open>field\<close>. Metadata maps strings to strings.
\<close>

datatype 'a field = Absent | Null | Val 'a

type_synonym metadata_dict = "(string \<times> string) list"

record server_json =
  sj_name :: "string option"
  sj_metadata :: "metadata_dict field"
  sj_flavorRef :: "string option"
  sj_imageRef :: "string field"
  sj_diskConfig :: "string field"

text \<open>\<open>None\<close>: the request body has no \<^verbatim>\<open>"server"\<close> key.\<close>

type_synonym creation_json = "server_json option"

subsection \<open>Servers and addresses\<close>

datatype ip_address = IPv4Address string | IPv6Address string

fun address_json :: "ip_address \<Rightarrow> json" where
  "address_json (IPv4Address address) = JObj [(''addr'', JStr address), (''version'', JNum 4)]"
| "address_json (IPv6Address address) = JObj [(''addr'', JStr address), (''version'', JNum 6)]"

text \<open>
  The attributes of \<^verbatim>\<open>Server\<close>. The back-reference \<^verbatim>\<open>collection\<close> is the world the
  operations receive; \<^verbatim>\<open>creation_request_json\<close> is stored by the constructor and read by
  no function of the module, and is left out. \<open>image_ref\<close> is optional because
  \<^verbatim>\<open>detail_json\<close> tests it against \<^verbatim>\<open>None\<close>.
\<close>

record server =
  server_id :: string
  server_name :: string
  metadata :: metadata_dict
  creation_time :: rat
  update_time :: rat
  public_ips :: "ip_address list"
  private_ips :: "ip_address list"
  status :: string
  flavor_ref :: string
  image_ref :: "string option"
  disk_config :: string
  admin_password :: string

type_synonym addr = nat

datatype criterion =
    server_name_criterion string
  | metadata_criterion "(string \<times> string) list"

text \<open>
  A creation behavior is a Python closure; the module builds only four kinds of them.
  \<open>default_create_behavior hook\<close> is \<^verbatim>\<open>default_create_behavior\<close> with its \<^verbatim>\<open>hook\<close>
  argument (\<^verbatim>\<open>default_with_hook\<close> supplies it), \<open>fail_without_creating code message\<close>
  the closure returned by \<^verbatim>\<open>create_fail_behavior\<close>.
\<close>

datatype hook = set_building rat | set_error

datatype behavior =
    default_create_behavior "hook option"
  | fail_without_creating json json

definition default_with_hook :: "hook \<Rightarrow> behavior" where
  "default_with_hook function = default_create_behavior (Some function)"

text \<open>
  The state: one \<^verbatim>\<open>RegionalServerCollection\<close>, its clock, and the store of server
  objects. \<open>clock_calls\<close> are the pending delayed calls of the clock: the only callable the
  module schedules is \<^verbatim>\<open>lambda: setattr(server, "status", u"ACTIVE")\<close>, kept as the
  address of its server.
\<close>

record world =
  tenant_id :: string
  region_name :: string
  clock_now :: rat
  clock_calls :: "(rat \<times> addr) list"
  heap :: "server list"
  servers :: "addr list"
  create_behavior_registry :: "(criterion list \<times> behavior) list"

text \<open>The HTTP request object: the module only calls \<^verbatim>\<open>setResponseCode\<close> on it.\<close>

record http =
  response_code :: json

definition setResponseCode :: "http \<Rightarrow> json \<Rightarrow> http" where
  "setResponseCode request code = request\<lparr>response_code := code\<rparr>"

definition ACCEPTED :: json where "ACCEPTED = JNum 202"
definition NOT_FOUND :: json where "NOT_FOUND = JNum 404"

text \<open>
  The random choices of one creation: \<^verbatim>\<open>randrange(9999999999)\<close> for the id, the three
  calls of \<^verbatim>\<open>ipsegment\<close> and \<^verbatim>\<open>random_string(12)\<close>.
\<close>

record draws =
  id_draw :: nat
  seg1 :: nat
  seg2 :: nat
  seg3 :: nat
  password :: string

subsection \<open>JSON views of a server\<close>

definition addresses_json :: "server \<Rightarrow> json" where
  "addresses_json self =
     JObj [(''private'', JArr (map address_json (private_ips self))),
           (''public'', JArr (map address_json (public_ips self)))]"

definition links_json :: "world \<Rightarrow> (string \<Rightarrow> string) \<Rightarrow> server \<Rightarrow> json" where
  "links_json collection absolutize_url self =
     JArr [JObj [(''href'', JStr (absolutize_url
                    (''v2/'' @ tenant_id collection @ ''/servers/'' @ server_id self))),
                 (''rel'', JStr ''self'')],
           JObj [(''href'', JStr (absolutize_url
                    (tenant_id collection @ ''/servers/'' @ server_id self))),
                 (''rel'', JStr ''bookmark'')]]"

definition brief_json :: "world \<Rightarrow> (string \<Rightarrow> string) \<Rightarrow> server \<Rightarrow> json" where
  "brief_json collection absolutize_url self =
     JObj [(''name'', JStr (server_name self)),
           (''links'', links_json collection absolutize_url self),
           (''id'', JStr (server_id self))]"

definition static_defaults :: "(string \<times> json) list" where
  "static_defaults =
     [(''OS-EXT-STS:power_state'', JNum 1),
      (''OS-EXT-STS:task_state'', JNull),
      (''accessIPv4'', JStr ''198.101.241.238''),
      (''accessIPv6'', JStr ''2001:4800:780e:0510:d87b:9cbc:ff04:513a''),
      (''key_name'', JNull),
      (''hostId'', JStr ''33ccb6c82f3625748b6f2338f54d8e9df07cc583251e001355569056''),
      (''progress'', JNum 100),
      (''user_id'', JStr ''170454'')]"

definition metadata_json :: "metadata_dict \<Rightarrow> json" where
  "metadata_json md = JObj (map (\<lambda>(k, v). (k, JStr v)) md)"

text \<open>\<^verbatim>\<open>template.update({...})\<close>: the items are set one after the other.\<close>

definition dict_update :: "('k \<times> 'v) list \<Rightarrow> ('k \<times> 'v) list \<Rightarrow> ('k \<times> 'v) list" where
  "dict_update template items = foldl (\<lambda>d (k, v). setitem k v d) template items"

text \<open>
  The value of the \<^verbatim>\<open>"image"\<close> key in \<^verbatim>\<open>detail_json\<close>: the conditional expression
  \<^verbatim>\<open>{...} if self.image_ref is not None else ''\<close>.
\<close>

definition image_json :: "world \<Rightarrow> (string \<Rightarrow> string) \<Rightarrow> server \<Rightarrow> json" where
  "image_json collection absolutize_url self =
     (case image_ref self of
        Some ref \<Rightarrow>
          JObj [(''id'', JStr ref),
                (''links'', JArr [JObj
                   [(''href'', JStr (absolutize_url
                       (tenant_id collection @ ''/images/'' @ flavor_ref self))),
                    (''rel'', JStr ''bookmark'')]])]
      | None \<Rightarrow> JStr '''')"

definition detail_json :: "lib \<Rightarrow> world \<Rightarrow> (string \<Rightarrow> string) \<Rightarrow> server \<Rightarrow> json" where
  "detail_json l collection absolutize_url self =
     JObj (dict_update static_defaults
       [(''id'', JStr (server_id self)),
        (''OS-DCF:diskConfig'', JStr (disk_config self)),
        (''OS-EXT-STS:vm_state'', JStr (status self)),
        (''addresses'', addresses_json self),
        (''created'', JStr (seconds_to_timestamp l (creation_time self))),
        (''updated'', JStr (seconds_to_timestamp l (update_time self))),
        (''flavor'', JObj
           [(''id'', JStr (flavor_ref self)),
            (''links'', JArr [JObj
               [(''href'', JStr (absolutize_url
                   (tenant_id collection @ ''/flavors/'' @ flavor_ref self))),
                (''rel'', JStr ''bookmark'')]])]),
        (''image'', image_json collection absolutize_url self),
        (''links'', links_json collection absolutize_url self),
        (''metadata'', metadata_json (metadata self)),
        (''name'', JStr (server_name self)),
        (''tenant_id'', JStr (tenant_id collection)),
        (''status'', JStr (status self))])"

definition creation_response_json :: "world \<Rightarrow> (string \<Rightarrow> string) \<Rightarrow> server \<Rightarrow> json" where
  "creation_response_json collection absolutize_url self =
     JObj [(''server'', JObj
       [(''OS-DCF:diskConfig'', JStr (disk_config self)),
        (''id'', JStr (server_id self)),
        (''links'', links_json collection absolutize_url self),
        (''adminPass'', JStr (admin_password self))])]"

subsection \<open>The clock\<close>

text \<open>
  Modelled from the spec: the Virtual Clock is injected into the collection
  (\<^verbatim>\<open>collection.clock\<close>) and its implementation is not part of the module. The spec
  gives it "current time" and "invoke this callback after N simulated seconds"; scheduled
  callbacks fire in nondecreasing time order when the clock is advanced, and callbacks
  scheduled for the same instant fire in registration order.
\<close>

definition seconds :: "world \<Rightarrow> rat" where
  "seconds collection = clock_now collection"

fun schedule :: "rat \<times> addr \<Rightarrow> (rat \<times> addr) list \<Rightarrow> (rat \<times> addr) list" where
  "schedule c [] = [c]"
| "schedule c (c' # cs) = (if fst c < fst c' then c # c' # cs else c' # schedule c cs)"

definition callLater :: "world \<Rightarrow> rat \<Rightarrow> addr \<Rightarrow> world" where
  "callLater collection delay a =
     collection\<lparr>clock_calls := schedule (seconds collection + delay, a) (clock_calls collection)\<rparr>"

text \<open>The scheduled callable: \<^verbatim>\<open>lambda: setattr(server, "status", u"ACTIVE")\<close>.\<close>

definition set_active :: "addr \<Rightarrow> server list \<Rightarrow> server list" where
  "set_active a h = h[a := (h ! a)\<lparr>status := ''ACTIVE''\<rparr>]"

text \<open>Advancing fires, from the front of the queue, every call whose time has come.\<close>

fun run_calls :: "rat \<Rightarrow> (rat \<times> addr) list \<Rightarrow> server list \<Rightarrow> (rat \<times> addr) list \<times> server list" where
  "run_calls now [] h = ([], h)"
| "run_calls now ((t, a) # cs) h =
     (if t \<le> now then run_calls now cs (set_active a h) else ((t, a) # cs, h))"

definition advance :: "rat \<Rightarrow> world \<Rightarrow> world" where
  "advance amount collection =
     (let now = clock_now collection + amount;
          (cs, h) = run_calls now (clock_calls collection) (heap collection)
      in collection\<lparr>clock_now := now, clock_calls := cs, heap := h\<rparr>)"

subsection \<open>Creating a server\<close>

text \<open>\<^verbatim>\<open>server_json.get('OS-DCF:diskConfig', None) or "AUTO"\<close>.\<close>

definition disk_config_or_auto :: "string field \<Rightarrow> string" where
  "disk_config_or_auto f =
     (case f of Absent \<Rightarrow> ''AUTO'' | Null \<Rightarrow> ''AUTO'' | Val v \<Rightarrow> if v = [] then ''AUTO'' else v)"

definition from_creation_request_json ::
  "world \<Rightarrow> creation_json \<Rightarrow> draws \<Rightarrow> error + (addr \<times> world)" where
  "from_creation_request_json collection creation_json rnd =
     (let now = seconds collection in
      case creation_json of
        None \<Rightarrow> Inl (KeyError ''server'')
      | Some sj \<Rightarrow>
          let disk_config = disk_config_or_auto (sj_diskConfig sj)
          in if disk_config \<notin> set [''AUTO'', ''MANUAL'']
             then Inl (ValueError ''OS-DCF:diskConfig not either AUTO or MANUAL'')
             else
               (case sj_name sj of
                  None \<Rightarrow> Inl (KeyError ''name'')
                | Some name \<Rightarrow>
               (case sj_flavorRef sj of
                  None \<Rightarrow> Inl (KeyError ''flavorRef'')
                | Some flavorRef \<Rightarrow>
               (case sj_imageRef sj of
                  Absent \<Rightarrow> Inl (KeyError ''imageRef'')
                | imageRef \<Rightarrow>
                  let self = \<lparr>
                        server_id = ''test-server'' @ str_nat (id_draw rnd)
                                      @ ''-id-'' @ str_nat (id_draw rnd),
                        server_name = name,
                        metadata = (case sj_metadata sj of Val md \<Rightarrow> md | _ \<Rightarrow> []),
                        creation_time = now,
                        update_time = now,
                        public_ips =
                          [IPv4Address (''198.101.241.'' @ str_nat (seg3 rnd)),
                           IPv6Address ''2001:4800:780e:0510:d87b:9cbc:ff04:513a''],
                        private_ips =
                          [IPv4Address (''10.180.'' @ str_nat (seg1 rnd)
                                          @ ''.'' @ str_nat (seg2 rnd))],
                        status = ''ACTIVE'',
                        flavor_ref = flavorRef,
                        image_ref = Some (case imageRef of Val v \<Rightarrow> v | _ \<Rightarrow> []),
                        disk_config = disk_config,
                        admin_password = password rnd
                      \<rparr>
                  in Inr (length (heap collection),
                          collection\<lparr>heap := heap collection @ [self],
                                      servers := servers collection
                                                   @ [length (heap collection)]\<rparr>)))))"

text \<open>The hooks \<^verbatim>\<open>set_building\<close> and \<^verbatim>\<open>set_error\<close>, applied to the new server.\<close>

fun run_hook :: "hook \<Rightarrow> addr \<Rightarrow> world \<Rightarrow> world" where
  "run_hook (set_building duration) a collection =
     callLater (collection\<lparr>heap := (heap collection)
                   [a := (heap collection ! a)\<lparr>status := ''BUILD''\<rparr>]\<rparr>) duration a"
| "run_hook set_error a collection =
     collection\<lparr>heap := (heap collection)[a := (heap collection ! a)\<lparr>status := ''ERROR''\<rparr>]\<rparr>"

text \<open>
  Modelled from the spec: \<^verbatim>\<open>invalid_resource\<close> of \<^verbatim>\<open>mimic.util.helper\<close> is not among
  the sources; the spec describes its result as the structured error payload
  \<open>{code, message}\<close>.
\<close>

definition invalid_resource :: "json \<Rightarrow> json \<Rightarrow> json" where
  "invalid_resource message code = JObj [(''message'', message), (''code'', code)]"

text \<open>
  Calling a behavior: \<^verbatim>\<open>behavior(collection, http, json, absolutize_url)\<close>. The result
  is the request with its response code, the response body and the new state.
\<close>

fun run_behavior ::
  "lib \<Rightarrow> behavior \<Rightarrow> world \<Rightarrow> http \<Rightarrow> creation_json \<Rightarrow> (string \<Rightarrow> string) \<Rightarrow> draws
     \<Rightarrow> error + (http \<times> string \<times> world)" where
  "run_behavior l (default_create_behavior hook) collection request js absolutize_url rnd =
     (case from_creation_request_json collection js rnd of
        Inl e \<Rightarrow> Inl e
      | Inr (a, c1) \<Rightarrow>
          let c2 = (case hook of None \<Rightarrow> c1 | Some h \<Rightarrow> run_hook h a c1);
              response = creation_response_json c2 absolutize_url (heap c2 ! a)
          in Inr (setResponseCode request ACCEPTED, dumps l response, c2))"
| "run_behavior l (fail_without_creating status_code failure_message)
       collection request js absolutize_url rnd =
     Inr (setResponseCode request status_code,
          dumps l (invalid_resource failure_message status_code), collection)"

subsection \<open>Behavior creators and the metadata override resolver\<close>

text \<open>\<^verbatim>\<open>create_fail_behavior(parameters)\<close>; \<^verbatim>\<open>parameters.get\<close> needs a dictionary.\<close>

fun create_fail_behavior :: "json \<Rightarrow> error + behavior" where
  "create_fail_behavior (JObj parameters) =
     Inr (fail_without_creating
            (dict_get parameters ''code'' (JNum 500))
            (dict_get parameters ''message'' (JStr ''Server creation failed.'')))"
| "create_fail_behavior _ = Inl AttributeError"

text \<open>
  \<^verbatim>\<open>create_building_behavior(parameters)\<close>; the argument is the entry of
  \<^verbatim>\<open>parameters\<close> at \<^verbatim>\<open>"duration"\<close>, \<open>None\<close> when the key is missing.
\<close>

fun create_building_behavior :: "rat option \<Rightarrow> error + behavior" where
  "create_building_behavior None = Inl (KeyError ''duration'')"
| "create_building_behavior (Some duration) = Inr (default_with_hook (set_building duration))"

definition create_error_status_behavior :: behavior where
  "create_error_status_behavior = default_with_hook set_error"

text \<open>
  \<^verbatim>\<open>metadata_to_creation_behavior(metadata)\<close>. The argument is \<open>None\<close> for Python's
  \<^verbatim>\<open>None\<close>, on which \<^verbatim>\<open>in\<close> raises \<^verbatim>\<open>TypeError\<close>.
\<close>

definition metadata_to_creation_behavior ::
  "lib \<Rightarrow> metadata_dict option \<Rightarrow> error + behavior option" where
  "metadata_to_creation_behavior l md_opt =
     (case md_opt of
        None \<Rightarrow> Inl TypeError
      | Some md \<Rightarrow>
          (case map_of md ''create_server_failure'' of
             Some v \<Rightarrow>
               (case loads l v of
                  None \<Rightarrow> Inl (ValueError ''loads'')
                | Some parameters \<Rightarrow> map_sum id Some (create_fail_behavior parameters))
           | None \<Rightarrow>
          (case map_of md ''server_building'' of
             Some v \<Rightarrow>
               (case float_of l v of
                  None \<Rightarrow> Inl (ValueError ''float'')
                | Some d \<Rightarrow> map_sum id Some (create_building_behavior (Some d)))
           | None \<Rightarrow>
          (case map_of md ''server_error'' of
             Some v \<Rightarrow> Inr (Some create_error_status_behavior)
           | None \<Rightarrow> Inr None))))"

subsection \<open>Criteria and the behavior registry\<close>

text \<open>The attribute bundle \<^verbatim>\<open>request_creation\<close> passes to the registry.\<close>

record attributes =
  attr_tenant_id :: string
  attr_server_name :: string
  attr_metadata :: "metadata_dict option"

text \<open>
  Modelled from the spec: \<^verbatim>\<open>regexp_predicate\<close> of \<^verbatim>\<open>mimic.model.behaviors\<close> is not
  among the sources; the spec describes it as a regular-expression match against a string
  attribute.
\<close>

definition regexp_predicate :: "lib \<Rightarrow> string \<Rightarrow> string \<Rightarrow> error + bool" where
  "regexp_predicate l v attribute =
     (case re_compile l v of None \<Rightarrow> Inl RegexError | Some m \<Rightarrow> Inr (m attribute))"

text \<open>
  The predicate of \<^verbatim>\<open>metadata_criterion(value)\<close>: the loop over \<^verbatim>\<open>value.items()\<close>.
  \<^verbatim>\<open>re.compile(v)\<close> is evaluated before \<^verbatim>\<open>attribute.get(k, "")\<close>, which raises
  \<^verbatim>\<open>AttributeError\<close> when \<open>attribute\<close> is \<^verbatim>\<open>None\<close>.
\<close>

fun metadata_predicate ::
  "lib \<Rightarrow> (string \<times> string) list \<Rightarrow> metadata_dict option \<Rightarrow> error + bool" where
  "metadata_predicate l [] attribute = Inr True"
| "metadata_predicate l ((k, v) # items) attribute =
     (case re_compile l v of
        None \<Rightarrow> Inl RegexError
      | Some m \<Rightarrow>
          (case attribute of
             None \<Rightarrow> Inl AttributeError
           | Some md \<Rightarrow>
               if \<not> m (dict_get md k []) then Inr False
               else metadata_predicate l items attribute))"

text \<open>
  Modelled from the spec: \<^verbatim>\<open>Criterion.evaluate\<close> and
  \<^verbatim>\<open>BehaviorRegistry.behavior_for_attributes\<close> of \<^verbatim>\<open>mimic.model.behaviors\<close> are not
  among the sources. The spec: a criterion applies its predicate to the attribute of its
  name; dispatch scans the entries in registration order and returns the first whose
  criteria all evaluate true, the default behavior if there is none.
\<close>

fun evaluate :: "lib \<Rightarrow> criterion \<Rightarrow> attributes \<Rightarrow> error + bool" where
  "evaluate l (server_name_criterion v) attrs = regexp_predicate l v (attr_server_name attrs)"
| "evaluate l (metadata_criterion v) attrs = metadata_predicate l v (attr_metadata attrs)"

fun evaluate_all :: "lib \<Rightarrow> criterion list \<Rightarrow> attributes \<Rightarrow> error + bool" where
  "evaluate_all l [] attrs = Inr True"
| "evaluate_all l (c # cs) attrs =
     (case evaluate l c attrs of
        Inl e \<Rightarrow> Inl e
      | Inr b \<Rightarrow> (case evaluate_all l cs attrs of Inl e \<Rightarrow> Inl e | Inr bs \<Rightarrow> Inr (b \<and> bs)))"

fun behavior_for_attributes ::
  "lib \<Rightarrow> (criterion list \<times> behavior) list \<Rightarrow> attributes \<Rightarrow> error + behavior" where
  "behavior_for_attributes l [] attrs = Inr (default_create_behavior None)"
| "behavior_for_attributes l ((criteria, b) # entries) attrs =
     (case evaluate_all l criteria attrs of
        Inl e \<Rightarrow> Inl e
      | Inr True \<Rightarrow> Inr b
      | Inr False \<Rightarrow> behavior_for_attributes l entries attrs)"

subsection \<open>The operations of the collection\<close>

text \<open>\<^verbatim>\<open>server_by_id\<close>: the first server of the sequence with the id, or \<^verbatim>\<open>None\<close>.\<close>

definition server_by_id :: "world \<Rightarrow> string \<Rightarrow> addr option" where
  "server_by_id self sid = find (\<lambda>a. server_id (heap self ! a) = sid) (servers self)"

text \<open>\<^verbatim>\<open>creation_json.get('server', {}).get('metadata', {})\<close>.\<close>

definition override_metadata :: "creation_json \<Rightarrow> metadata_dict option" where
  "override_metadata creation_json =
     (case creation_json of
        None \<Rightarrow> Some []
      | Some sj \<Rightarrow> (case sj_metadata sj of Absent \<Rightarrow> Some [] | Null \<Rightarrow> None | Val md \<Rightarrow> Some md))"

text \<open>The dictionary of attributes built for the registry, with its two subscripts.\<close>

definition creation_attributes :: "world \<Rightarrow> creation_json \<Rightarrow> error + attributes" where
  "creation_attributes self creation_json =
     (case creation_json of
        None \<Rightarrow> Inl (KeyError ''server'')
      | Some sj \<Rightarrow>
          (case sj_name sj of
             None \<Rightarrow> Inl (KeyError ''name'')
           | Some name \<Rightarrow>
               Inr \<lparr>attr_tenant_id = tenant_id self,
                    attr_server_name = name,
                    attr_metadata = (case sj_metadata sj of Val md \<Rightarrow> Some md | _ \<Rightarrow> None)\<rparr>))"

definition request_creation ::
  "lib \<Rightarrow> world \<Rightarrow> http \<Rightarrow> creation_json \<Rightarrow> (string \<Rightarrow> string) \<Rightarrow> draws
     \<Rightarrow> error + (http \<times> string \<times> world)" where
  "request_creation l self creation_http_request creation_json absolutize_url rnd =
     (case metadata_to_creation_behavior l (override_metadata creation_json) of
        Inl e \<Rightarrow> Inl e
      | Inr (Some behavior) \<Rightarrow>
          run_behavior l behavior self creation_http_request creation_json absolutize_url rnd
      | Inr None \<Rightarrow>
          (case creation_attributes self creation_json of
             Inl e \<Rightarrow> Inl e
           | Inr attrs \<Rightarrow>
               (case behavior_for_attributes l (create_behavior_registry self) attrs of
                  Inl e \<Rightarrow> Inl e
                | Inr behavior \<Rightarrow>
                    run_behavior l behavior self creation_http_request creation_json
                      absolutize_url rnd)))"


definition request_ips :: "lib \<Rightarrow> world \<Rightarrow> http \<Rightarrow> string \<Rightarrow> http \<times> string option" where
  "request_ips l self http_get_ips_request sid =
     (let request = setResponseCode http_get_ips_request (JNum 200) in
      case server_by_id self sid of
        None \<Rightarrow> (setResponseCode request NOT_FOUND, None)
      | Some a \<Rightarrow> (request, Some (dumps l (JObj [(''addresses'', addresses_json (heap self ! a))]))))"

text \<open>\<^verbatim>\<open>name in server.server_name\<close>: the substring test on strings.\<close>

fun starts_with :: "string \<Rightarrow> string \<Rightarrow> bool" where
  "starts_with [] ys = True"
| "starts_with (x # xs) [] = False"
| "starts_with (x # xs) (y # ys) = (x = y \<and> starts_with xs ys)"

fun contains :: "string \<Rightarrow> string \<Rightarrow> bool" where
  "contains name [] = (name = [])"
| "contains name (y # ys) = (starts_with name (y # ys) \<or> contains name ys)"

text \<open>The servers \<^verbatim>\<open>request_list\<close> enumerates, and the response it builds from them.\<close>

definition listed :: "world \<Rightarrow> string \<Rightarrow> addr list" where
  "listed self name = filter (\<lambda>a. contains name (server_name (heap self ! a))) (servers self)"

definition request_list ::
  "lib \<Rightarrow> world \<Rightarrow> http \<Rightarrow> bool \<Rightarrow> (string \<Rightarrow> string) \<Rightarrow> string \<Rightarrow> string" where
  "request_list l self http_get_request include_details absolutize_url name =
     dumps l (JObj [(''servers'',
       JArr (map (\<lambda>a. if \<not> include_details
                       then brief_json self absolutize_url (heap self ! a)
                       else detail_json l self absolutize_url (heap self ! a))
                 (listed self name)))])"

definition request_delete ::
  "lib \<Rightarrow> world \<Rightarrow> http \<Rightarrow> string \<Rightarrow> error + (http \<times> string \<times> world)" where
  "request_delete l self http_delete_request sid =
     (case server_by_id self sid of
        None \<Rightarrow> Inr (setResponseCode http_delete_request (JNum 404), [], self)
      | Some a \<Rightarrow>
          let server = heap self ! a;
              removed = Inr (setResponseCode http_delete_request (JNum 204), [],
                             self\<lparr>servers := remove1 a (servers self)\<rparr>)
          in case map_of (metadata server) ''delete_server_failure'' of
               None \<Rightarrow> removed
             | Some v \<Rightarrow>
                 (case loads l v of
                    None \<Rightarrow> Inl (ValueError ''loads'')
                  | Some srvfail \<Rightarrow>
                      (case getitem srvfail ''times'' of
                         Inl e \<Rightarrow> Inl e
                       | Inr remaining \<Rightarrow>
                           if truthy remaining then
                             (case minus_one remaining of
                                Inl e \<Rightarrow> Inl e
                              | Inr remaining' \<Rightarrow>
                                  (case srvfail of
                                     JObj kvs \<Rightarrow>
                                       Inr (setResponseCode http_delete_request (JNum 500), [],
                                            self\<lparr>heap := list_update (heap self) a
                                              (server\<lparr>metadata :=
                                                 setitem ''delete_server_failure''
                                                   (dumps l (JObj (setitem ''times'' remaining' kvs)))
                                                   (metadata server)\<rparr>)\<rparr>)
                                   | _ \<Rightarrow> Inl TypeError))
                           else removed)))"

subsection \<open>Runs of the system\<close>

text \<open>
  The calls that reach the collection and the clock. Reading and listing leave the state
  as it is; a call that raises leaves it as it is too, since every exception of the module
  is raised before the first mutation.
\<close>

datatype operation =
    Create creation_json draws
  | Read string
  | Ips string
  | List bool string
  | Delete string
  | Advance rat

definition fresh_request :: http where
  "fresh_request = \<lparr>response_code = JNum 200\<rparr>"

fun step :: "lib \<Rightarrow> (string \<Rightarrow> string) \<Rightarrow> world \<Rightarrow> operation \<Rightarrow> world" where
  "step l url w (Create js rnd) =
     (case request_creation l w fresh_request js url rnd of
        Inl e \<Rightarrow> w | Inr (request, body, w') \<Rightarrow> w')"
| "step l url w (Delete sid) =
     (case request_delete l w fresh_request sid of
        Inl e \<Rightarrow> w | Inr (request, body, w') \<Rightarrow> w')"
| "step l url w (Advance amount) = advance amount w"
| "step l url w _ = w"

definition run :: "lib \<Rightarrow> (string \<Rightarrow> string) \<Rightarrow> world \<Rightarrow> operation list \<Rightarrow> world" where
  "run l url w ops = foldl (step l url) w ops"

text \<open>
  The states the operations build: the collection holds each server once, every address
  is allocated, the pending calls are ordered by time, and each of them belongs to a
  different server, which is still building.
\<close>

definition wf :: "world \<Rightarrow> bool" where
  "wf w \<longleftrightarrow>
     distinct (servers w) \<and>
     list_all (\<lambda>a. a < length (heap w)) (servers w) \<and>
     sorted (map fst (clock_calls w)) \<and>
     distinct (map snd (clock_calls w)) \<and>
     list_all (\<lambda>(t, a). a < length (heap w) \<and> status (heap w ! a) = ''BUILD'') (clock_calls w)"

text \<open>A new collection: no server, no pending call, an empty registry.\<close>

definition new_collection :: "string \<Rightarrow> string \<Rightarrow> rat \<Rightarrow> world" where
  "new_collection tenant region now =
     \<lparr>tenant_id = tenant, region_name = region, clock_now = now, clock_calls = [],
      heap = [], servers = [], create_behavior_registry = []\<rparr>"

text \<open>The ids of the servers of the collection, in order.\<close>

definition server_ids :: "world \<Rightarrow> string list" where
  "server_ids w = map (\<lambda>a. server_id (heap w ! a)) (servers w)"

text \<open>The simulated seconds by which a run advances the clock.\<close>

fun elapsed :: "operation list \<Rightarrow> rat" where
  "elapsed [] = 0"
| "elapsed (Advance amount # ops) = amount + elapsed ops"
| "elapsed (_ # ops) = elapsed ops"

fun is_advance :: "operation \<Rightarrow> bool" where
  "is_advance (Advance amount) = True"
| "is_advance _ = False"

definition forward :: "operation list \<Rightarrow> bool" where
  "forward ops \<longleftrightarrow> list_all (\<lambda>op. case op of Advance amount \<Rightarrow> 0 \<le> amount | _ \<Rightarrow> True) ops"

text \<open>
  What one operation may do to the status of the server objects: an object that exists
  keeps its status or goes from \<open>BUILD\<close> to \<open>ACTIVE\<close>; a new object starts in one of the
  three statuses.
\<close>

definition status_step_ok :: "world \<Rightarrow> world \<Rightarrow> bool" where
  "status_step_ok w w' \<longleftrightarrow>
     length (heap w) \<le> length (heap w') \<and>
     (\<forall>a < length (heap w).
        status (heap w' ! a) = status (heap w ! a) \<or>
        (status (heap w ! a) = ''BUILD'' \<and> status (heap w' ! a) = ''ACTIVE'')) \<and>
     (\<forall>a < length (heap w'). length (heap w) \<le> a \<longrightarrow>
        status (heap w' ! a) \<in> {''ACTIVE'', ''BUILD'', ''ERROR''})"

text \<open>
  A creation either leaves the state as it is (the fail behavior), or allocates one server
  object at the next address and appends it to the collection; only the build hook adds a
  call, for the new server, which is then building.
\<close>

definition created :: "world \<Rightarrow> world \<Rightarrow> server \<Rightarrow> bool" where
  "created w w' srv \<longleftrightarrow>
     heap w' = heap w @ [srv] \<and> servers w' = servers w @ [length (heap w)] \<and>
     clock_now w' = clock_now w \<and>
     ((status srv = ''ACTIVE'' \<or> status srv = ''ERROR'') \<and> clock_calls w' = clock_calls w
      \<or> status srv = ''BUILD'' \<and>
        (\<exists>d. clock_calls w' = schedule (clock_now w + d, length (heap w)) (clock_calls w)))"

subsection \<open>Concrete inputs\<close>

text \<open>
  A small instance of the library functions, used to run the model on concrete requests:
  \<open>loads\<close> and \<open>dumps\<close> know the few JSON texts below, \<open>float_of\<close> the string \<open>5\<close>, and
  a pattern without metacharacters matches the strings that start with it.
\<close>

definition boom_text :: string where
  \<open>boom_text = ''{"code": 503, "message": "boom"}''\<close>

definition times_text :: "nat \<Rightarrow> string" where
  \<open>times_text n = ''{"times": '' @ str_nat n @ ''}''\<close>

definition ex_lib :: lib where
  "ex_lib =
     \<lparr>loads = map_of
        [(boom_text, JObj [(''code'', JNum 503), (''message'', JStr ''boom'')]),
         (''{}'', JObj []),
         (times_text 2, JObj [(''times'', JNum 2)]),
         (times_text 1, JObj [(''times'', JNum 1)]),
         (times_text 0, JObj [(''times'', JNum 0)])],
      dumps = (\<lambda>j. case j of
                     JObj [(k, JNum n)] \<Rightarrow>
                       if k = ''times'' \<and> 0 \<le> n then times_text (nat n) else []
                   | _ \<Rightarrow> []),
      float_of = map_of [(''5'', 5)],
      re_compile = (\<lambda>p. Some (starts_with p)),
      seconds_to_timestamp = (\<lambda>t. [])\<rparr>"

definition ex_draws :: "nat \<Rightarrow> draws" where
  "ex_draws n = \<lparr>id_draw = n, seg1 = 1, seg2 = 2, seg3 = 3, password = ''secret''\<rparr>"

definition ex_server_json :: "metadata_dict field \<Rightarrow> string field \<Rightarrow> server_json" where
  "ex_server_json md dc =
     \<lparr>sj_name = Some ''web'', sj_metadata = md, sj_flavorRef = Some ''2'',
      sj_imageRef = Val ''img'', sj_diskConfig = dc\<rparr>"

definition ex_world :: world where
  "ex_world = new_collection ''t1'' ''ORD'' 0"

text \<open>The server object that \<open>ex_server_json\<close> and \<open>ex_draws\<close> create at time 0.\<close>

definition ex_server :: "nat \<Rightarrow> metadata_dict \<Rightarrow> string \<Rightarrow> server" where
  "ex_server n md st =
     \<lparr>server_id = ''test-server'' @ str_nat n @ ''-id-'' @ str_nat n,
      server_name = ''web'', metadata = md, creation_time = 0, update_time = 0,
      public_ips = [IPv4Address ''198.101.241.3'',
                    IPv6Address ''2001:4800:780e:0510:d87b:9cbc:ff04:513a''],
      private_ips = [IPv4Address ''10.180.1.2''],
      status = st, flavor_ref = ''2'', image_ref = Some ''img'',
      disk_config = ''AUTO'', admin_password = ''secret''\<rparr>"

text \<open>The collection after one such creation, holding the server at address 0.\<close>

definition ex_one :: "metadata_dict \<Rightarrow> string \<Rightarrow> world" where
  "ex_one md st = ex_world\<lparr>heap := [ex_server 7 md st], servers := [0]\<rparr>"

text \<open>
  The collection after a creation with the metadata \<open>{"server_building": "5"}\<close>: the
  server is building and its call is due at time 5.
\<close>

definition ex_building :: world where
  "ex_building = (ex_one [(''server_building'', ''5'')] ''BUILD'')\<lparr>clock_calls := [(5, 0)]\<rparr>"

definition ex_build_request :: creation_json where
  "ex_build_request = Some (ex_server_json (Val [(''server_building'', ''5'')]) Absent)"

section \<open>Properties\<close>

subsection \<open>Evaluating the concrete inputs\<close>

lemma str_nat_small: "n < 10 \<Longrightarrow> str_nat n = [digit n]"
  by (simp add: str_nat.simps)

lemma ex_loads:
  "loads ex_lib boom_text = Some (JObj [(''code'', JNum 503), (''message'', JStr ''boom'')])"
  "loads ex_lib ''{}'' = Some (JObj [])"
  "loads ex_lib (times_text 2) = Some (JObj [(''times'', JNum 2)])"
  "loads ex_lib (times_text 1) = Some (JObj [(''times'', JNum 1)])"
  "loads ex_lib (times_text 0) = Some (JObj [(''times'', JNum 0)])"
  by (simp_all add: ex_lib_def boom_text_def times_text_def str_nat_small digit_def)

lemma ex_dumps:
  "0 \<le> n \<Longrightarrow> dumps ex_lib (JObj [(''times'', JNum n)]) = times_text (nat n)"
  by (simp add: ex_lib_def)

lemma ex_float: "float_of ex_lib ''5'' = Some 5"
  by (simp add: ex_lib_def)

lemma ex_unparsed:
  "loads ex_lib ''not json'' = None"
  "float_of ex_lib ''soon'' = None"
  by (simp_all add: ex_lib_def boom_text_def times_text_def)

lemma ex_create_simps:
  "override_metadata (Some (ex_server_json md dc)) =
     (case md of Absent \<Rightarrow> Some [] | Null \<Rightarrow> None | Val m \<Rightarrow> Some m)"
  "creation_attributes w (Some (ex_server_json md dc)) =
     Inr \<lparr>attr_tenant_id = tenant_id w, attr_server_name = ''web'',
          attr_metadata = (case md of Val m \<Rightarrow> Some m | _ \<Rightarrow> None)\<rparr>"
  by (simp_all add: override_metadata_def creation_attributes_def ex_server_json_def)

subsection \<open>The metadata override resolver\<close>

lemma create_fail_behavior_not_object:
  "\<forall>kvs. p \<noteq> JObj kvs \<Longrightarrow> create_fail_behavior p = Inl AttributeError"
  by (cases p) simp_all

text \<open>
  C1. \<^verbatim>\<open>request_creation\<close> asks the metadata override resolver before the registry.
  With the metadata \<open>md\<close> of the request (the empty dictionary when the request has none):
  if \<open>create_server_failure\<close> is a key, its value is parsed by \<open>loads\<close> and the fail
  behavior runs, whatever the other keys; otherwise, if \<open>server_building\<close> is a key, its
  value is parsed by \<open>float_of\<close> and the build behavior runs with that duration; otherwise,
  if \<open>server_error\<close> is a key, the error behavior runs; and when none of the three keys is
  present the behavior comes from the registry. In the first three cases the behavior does
  not depend on the registry. A present key whose value does not parse never reaches the
  registry either: the call raises \<^verbatim>\<open>ValueError\<close> when \<open>loads\<close> or \<open>float_of\<close> rejects
  the value, and \<^verbatim>\<open>AttributeError\<close> when \<open>loads\<close> returns something that is not an
  object.
\<close>

theorem override_resolver_priority:
  assumes "override_metadata js = Some md"
  shows "(\<forall>v p. map_of md ''create_server_failure'' = Some v \<and> loads l v = Some (JObj p) \<longrightarrow>
            request_creation l w request js url rnd =
              run_behavior l (fail_without_creating (dict_get p ''code'' (JNum 500))
                   (dict_get p ''message'' (JStr ''Server creation failed.'')))
                w request js url rnd)
       \<and> (\<forall>v d. map_of md ''create_server_failure'' = None
                \<and> map_of md ''server_building'' = Some v \<and> float_of l v = Some d \<longrightarrow>
            request_creation l w request js url rnd =
              run_behavior l (default_with_hook (set_building d)) w request js url rnd)
       \<and> (\<forall>v. map_of md ''create_server_failure'' = None
                \<and> map_of md ''server_building'' = None
                \<and> map_of md ''server_error'' = Some v \<longrightarrow>
            request_creation l w request js url rnd =
              run_behavior l (default_with_hook set_error) w request js url rnd)
       \<and> (map_of md ''create_server_failure'' = None
            \<and> map_of md ''server_building'' = None
            \<and> map_of md ''server_error'' = None \<longrightarrow>
            request_creation l w request js url rnd =
              (case creation_attributes w js of
                 Inl e \<Rightarrow> Inl e
               | Inr attrs \<Rightarrow>
                   (case behavior_for_attributes l (create_behavior_registry w) attrs of
                      Inl e \<Rightarrow> Inl e
                    | Inr b \<Rightarrow> run_behavior l b w request js url rnd)))
       \<and> (\<forall>v. map_of md ''create_server_failure'' = Some v \<and> loads l v = None \<longrightarrow>
            request_creation l w request js url rnd = Inl (ValueError ''loads''))
       \<and> (\<forall>v p. map_of md ''create_server_failure'' = Some v \<and> loads l v = Some p
                \<and> (\<forall>kvs. p \<noteq> JObj kvs) \<longrightarrow>
            request_creation l w request js url rnd = Inl AttributeError)
       \<and> (\<forall>v. map_of md ''create_server_failure'' = None
                \<and> map_of md ''server_building'' = Some v \<and> float_of l v = None \<longrightarrow>
            request_creation l w request js url rnd = Inl (ValueError ''float''))"
  using assms
  by (simp add: request_creation_def metadata_to_creation_behavior_def
        create_error_status_behavior_def create_fail_behavior_not_object)

theorem override_resolver_priority_witness:
  "request_creation ex_lib ex_world fresh_request
      (Some (ex_server_json (Val [(''server_error'', ''1''), (''server_building'', ''5''),
                                  (''create_server_failure'', boom_text)]) Absent))
      id (ex_draws 7) =
    run_behavior ex_lib (fail_without_creating (JNum 503) (JStr ''boom'')) ex_world fresh_request
      (Some (ex_server_json (Val [(''server_error'', ''1''), (''server_building'', ''5''),
                                  (''create_server_failure'', boom_text)]) Absent))
      id (ex_draws 7)
  \<and> request_creation ex_lib ex_world fresh_request
      (Some (ex_server_json (Val [(''server_error'', ''1''), (''server_building'', ''5'')]) Absent))
      id (ex_draws 7) =
    run_behavior ex_lib (default_with_hook (set_building 5)) ex_world fresh_request
      (Some (ex_server_json (Val [(''server_error'', ''1''), (''server_building'', ''5'')]) Absent))
      id (ex_draws 7)
  \<and> request_creation ex_lib ex_world fresh_request
      (Some (ex_server_json (Val [(''server_error'', ''1'')]) Absent)) id (ex_draws 7) =
    run_behavior ex_lib (default_with_hook set_error) ex_world fresh_request
      (Some (ex_server_json (Val [(''server_error'', ''1'')]) Absent)) id (ex_draws 7)
  \<and> request_creation ex_lib ex_world fresh_request
      (Some (ex_server_json (Val [(''role'', ''db'')]) Absent)) id (ex_draws 7) =
    run_behavior ex_lib (default_create_behavior None) ex_world fresh_request
      (Some (ex_server_json (Val [(''role'', ''db'')]) Absent)) id (ex_draws 7)
  \<and> request_creation ex_lib ex_world fresh_request
      (Some (ex_server_json (Val [(''create_server_failure'', ''not json'')]) Absent))
      id (ex_draws 7) = Inl (ValueError ''loads'')
  \<and> request_creation ex_lib ex_world fresh_request
      (Some (ex_server_json (Val [(''server_building'', ''soon'')]) Absent))
      id (ex_draws 7) = Inl (ValueError ''float'')"
  using override_resolver_priority
          [of "Some (ex_server_json (Val [(''create_server_failure'', ''not json'')]) Absent)"
              "[(''create_server_failure'', ''not json'')]"
              ex_lib ex_world fresh_request id "ex_draws 7"]
        override_resolver_priority
          [of "Some (ex_server_json (Val [(''server_building'', ''soon'')]) Absent)"
              "[(''server_building'', ''soon'')]"
              ex_lib ex_world fresh_request id "ex_draws 7"]
        override_resolver_priority
          [of "Some (ex_server_json (Val [(''server_error'', ''1''), (''server_building'', ''5''),
                                  (''create_server_failure'', boom_text)]) Absent)"
              "[(''server_error'', ''1''), (''server_building'', ''5''),
                (''create_server_failure'', boom_text)]"
              ex_lib ex_world fresh_request id "ex_draws 7"]
        override_resolver_priority
          [of "Some (ex_server_json (Val [(''server_error'', ''1''), (''server_building'', ''5'')])
                 Absent)"
              "[(''server_error'', ''1''), (''server_building'', ''5'')]"
              ex_lib ex_world fresh_request id "ex_draws 7"]
        override_resolver_priority
          [of "Some (ex_server_json (Val [(''server_error'', ''1'')]) Absent)"
              "[(''server_error'', ''1'')]" ex_lib ex_world fresh_request id "ex_draws 7"]
        override_resolver_priority
          [of "Some (ex_server_json (Val [(''role'', ''db'')]) Absent)"
              "[(''role'', ''db'')]" ex_lib ex_world fresh_request id "ex_draws 7"]
  by (simp add: ex_create_simps ex_loads ex_float ex_unparsed dict_get_def ex_world_def
        new_collection_def)

subsection \<open>The fail behavior\<close>

text \<open>
  C4. When the metadata of a creation request has the key \<open>create_server_failure\<close> and
  its value parses to an object \<open>parameters\<close>, \<^verbatim>\<open>request_creation\<close> leaves the whole
  state as it is (no server object is allocated or changed and the sequence of servers is
  the same), sets the response code to the parameter \<open>code\<close>, and returns the payload
  \<open>{message, code}\<close>; a missing \<open>code\<close> is 500 and a missing \<open>message\<close> is
  \<open>Server creation failed.\<close>
\<close>

theorem fail_behavior_creates_nothing:
  assumes "override_metadata js = Some md"
    and "map_of md ''create_server_failure'' = Some v"
    and "loads l v = Some (JObj parameters)"
  shows "request_creation l w request js url rnd =
           Inr (setResponseCode request
                  (case map_of parameters ''code'' of None \<Rightarrow> JNum 500 | Some c \<Rightarrow> c),
                dumps l (JObj
                  [(''message'', (case map_of parameters ''message'' of
                                    None \<Rightarrow> JStr ''Server creation failed.'' | Some m \<Rightarrow> m)),
                   (''code'', (case map_of parameters ''code'' of
                                 None \<Rightarrow> JNum 500 | Some c \<Rightarrow> c))]),
                w)"
  using assms
  by (simp add: request_creation_def metadata_to_creation_behavior_def dict_get_def
        invalid_resource_def)

theorem fail_behavior_creates_nothing_witness:
  "request_creation ex_lib ex_world fresh_request
     (Some (ex_server_json (Val [(''create_server_failure'', boom_text)])
        Absent)) id (ex_draws 7) =
     Inr (\<lparr>response_code = JNum 503\<rparr>,
          dumps ex_lib (JObj [(''message'', JStr ''boom''), (''code'', JNum 503)]), ex_world)
   \<and> request_creation ex_lib ex_world fresh_request
     (Some (ex_server_json (Val [(''create_server_failure'', ''{}'')]) Absent)) id (ex_draws 7) =
     Inr (\<lparr>response_code = JNum 500\<rparr>,
          dumps ex_lib (JObj [(''message'', JStr ''Server creation failed.''), (''code'', JNum 500)]),
          ex_world)"
  using fail_behavior_creates_nothing
          [of "Some (ex_server_json (Val [(''create_server_failure'',
                 boom_text)]) Absent)"
              "[(''create_server_failure'', boom_text)]"
              boom_text ex_lib
              "[(''code'', JNum 503), (''message'', JStr ''boom'')]"
              ex_world fresh_request id "ex_draws 7"]
        fail_behavior_creates_nothing
          [of "Some (ex_server_json (Val [(''create_server_failure'', ''{}'')]) Absent)"
              "[(''create_server_failure'', ''{}'')]" "''{}''" ex_lib "[]"
              ex_world fresh_request id "ex_draws 7"]
  by (simp add: override_metadata_def ex_server_json_def ex_loads setResponseCode_def
        fresh_request_def)

subsection \<open>The disk configuration\<close>

text \<open>
  C6, as the claim states it, does not hold: the value \<open>""\<close> of \<open>OS-DCF:diskConfig\<close> is
  present and is neither \<open>AUTO\<close> nor \<open>MANUAL\<close>, yet the server is created, with the disk
  configuration \<open>AUTO\<close>.
\<close>

theorem empty_disk_config_accepted:
  "sj_diskConfig (ex_server_json Absent (Val [])) = Val []
   \<and> [] \<notin> {''AUTO'', ''MANUAL''}
   \<and> from_creation_request_json ex_world (Some (ex_server_json Absent (Val []))) (ex_draws 7) =
       Inr (0, ex_world\<lparr>heap := [ex_server 7 [] ''ACTIVE''], servers := [0]\<rparr>)
   \<and> disk_config (ex_server 7 [] ''ACTIVE'') = ''AUTO''"
  by (simp add: from_creation_request_json_def disk_config_or_auto_def ex_world_def
        new_collection_def ex_server_json_def ex_draws_def seconds_def ex_server_def
        str_nat_small digit_def)

text \<open>
  C6, amended. For a request with a name, a flavor and an image key:
  when \<open>OS-DCF:diskConfig\<close> is absent, \<^verbatim>\<open>null\<close>, the empty string or \<open>AUTO\<close> the server
  is created with the disk configuration \<open>AUTO\<close>; when it is \<open>MANUAL\<close> the server is
  created with \<open>MANUAL\<close>; any other value raises \<^verbatim>\<open>ValueError\<close> to the caller, from
  the constructor and from the default behavior with any hook, and no state is returned.
\<close>

theorem disk_config_validation:
  assumes "sj_name sj = Some name" and "sj_flavorRef sj = Some flavorRef"
    and "sj_imageRef sj \<noteq> Absent"
  shows "(sj_diskConfig sj \<in> {Absent, Null, Val [], Val ''AUTO''} \<longrightarrow>
            (\<exists>w'. from_creation_request_json w (Some sj) rnd = Inr (length (heap w), w')
                  \<and> disk_config (heap w' ! length (heap w)) = ''AUTO''))
       \<and> (sj_diskConfig sj = Val ''MANUAL'' \<longrightarrow>
            (\<exists>w'. from_creation_request_json w (Some sj) rnd = Inr (length (heap w), w')
                  \<and> disk_config (heap w' ! length (heap w)) = ''MANUAL''))
       \<and> (\<forall>v. sj_diskConfig sj = Val v \<and> v \<notin> {[], ''AUTO'', ''MANUAL''} \<longrightarrow>
            from_creation_request_json w (Some sj) rnd =
              Inl (ValueError ''OS-DCF:diskConfig not either AUTO or MANUAL'')
          \<and> run_behavior l (default_create_behavior hook) w request (Some sj) url rnd =
              Inl (ValueError ''OS-DCF:diskConfig not either AUTO or MANUAL''))"
  using assms
  by (cases "sj_imageRef sj")
     (auto simp: from_creation_request_json_def disk_config_or_auto_def Let_def)

theorem disk_config_validation_witness:
  "(\<exists>w'. from_creation_request_json ex_world (Some (ex_server_json Absent Absent)) (ex_draws 7)
            = Inr (0, w') \<and> disk_config (heap w' ! 0) = ''AUTO'')
 \<and> (\<exists>w'. from_creation_request_json ex_world (Some (ex_server_json Absent (Val ''MANUAL'')))
            (ex_draws 7) = Inr (0, w') \<and> disk_config (heap w' ! 0) = ''MANUAL'')
 \<and> from_creation_request_json ex_world (Some (ex_server_json Absent (Val ''RAID''))) (ex_draws 7)
      = Inl (ValueError ''OS-DCF:diskConfig not either AUTO or MANUAL'')
 \<and> run_behavior ex_lib (default_create_behavior None) ex_world fresh_request
      (Some (ex_server_json Absent (Val ''RAID''))) id (ex_draws 7)
      = Inl (ValueError ''OS-DCF:diskConfig not either AUTO or MANUAL'')"
  using disk_config_validation
          [of "ex_server_json Absent Absent" "''web''" "''2''" ex_world "ex_draws 7"
              ex_lib None fresh_request id]
        disk_config_validation
          [of "ex_server_json Absent (Val ''MANUAL'')" "''web''" "''2''" ex_world "ex_draws 7"
              ex_lib None fresh_request id]
        disk_config_validation
          [of "ex_server_json Absent (Val ''RAID'')" "''web''" "''2''" ex_world "ex_draws 7"
              ex_lib None fresh_request id]
  by (simp add: ex_server_json_def ex_world_def new_collection_def)

subsection \<open>The image link of the detail payload\<close>

text \<open>
  C10. For a server with a non-empty \<open>image_ref\<close>, the \<open>image\<close> entry of the detail
  payload has the \<open>image_ref\<close> as its \<open>id\<close> and one bookmark link, whose \<open>href\<close> is
  \<^verbatim>\<open>absolutize_url\<close> of \<open>tenant_id/images/flavor_ref\<close>: it is built from the flavor
  reference of the server, not from its image reference.
\<close>

theorem image_link_uses_flavor_ref:
  assumes "image_ref self = Some ref" and "ref \<noteq> []"
  shows "getitem (detail_json l c url self) ''image'' =
           Inr (JObj [(''id'', JStr ref),
                      (''links'', JArr [JObj
                         [(''href'', JStr (url (tenant_id c @ ''/images/'' @ flavor_ref self))),
                          (''rel'', JStr ''bookmark'')]])])"
  using assms by (simp add: detail_json_def dict_update_def static_defaults_def image_json_def)

theorem image_link_uses_flavor_ref_witness:
  "getitem (detail_json ex_lib ex_world id (ex_server 7 [] ''ACTIVE'')) ''image'' =
     Inr (JObj [(''id'', JStr ''img''),
                (''links'', JArr [JObj [(''href'', JStr ''t1/images/2''),
                                        (''rel'', JStr ''bookmark'')]])])"
  using image_link_uses_flavor_ref [of "ex_server 7 [] ''ACTIVE''" "''img''" ex_lib ex_world id]
  by (simp add: ex_server_def ex_world_def new_collection_def)

subsection \<open>Criteria on a request without metadata\<close>

text \<open>
  C8. The code raises where the claim promises a boolean. A collection has one registered
  behavior, whose criterion is \<open>metadata_criterion {"role": "db"}\<close>; a creation request
  without the \<open>metadata\<close> key reaches the registry with \<^verbatim>\<open>None\<close> as its metadata
  attribute, and the predicate's \<^verbatim>\<open>attribute.get\<close> raises \<^verbatim>\<open>AttributeError\<close>.
\<close>

theorem metadata_criterion_raises_without_metadata:
  "request_creation ex_lib
     (ex_world\<lparr>create_behavior_registry :=
        [([metadata_criterion [(''role'', ''db'')]], default_with_hook set_error)]\<rparr>)
     fresh_request (Some (ex_server_json Absent Absent)) id (ex_draws 7) = Inl AttributeError
   \<and> metadata_predicate ex_lib [(''role'', ''db'')] None = Inl AttributeError
   \<and> metadata_predicate ex_lib [(''role'', ''db'')] (Some []) = Inr False"
  by (simp add: request_creation_def metadata_to_creation_behavior_def ex_create_simps ex_lib_def
        dict_get_def)


subsection \<open>The default creation\<close>

lemma digit_inj: "m < 10 \<Longrightarrow> n < 10 \<Longrightarrow> digit m = digit n \<Longrightarrow> m = n"
proof -
  assume m: "m < 10" and n: "n < 10" and e: "digit m = digit n"
  have d: "distinct ''0123456789''" by simp
  have "m < length ''0123456789''" "n < length ''0123456789''" using m n by simp_all
  with d e show "m = n" unfolding digit_def by (simp only: nth_eq_iff_index_eq)
qed

lemma str_nat_nonempty: "str_nat n \<noteq> []"
  by (subst str_nat.simps) simp

lemma str_nat_inj: "str_nat m = str_nat n \<Longrightarrow> m = n"
proof (induction m arbitrary: n rule: str_nat.induct)
  case (1 m)
  show ?case
  proof (cases "m < 10")
    case True
    show ?thesis
    proof (cases "n < 10")
      case True
      with \<open>m < 10\<close> "1.prems" show ?thesis
        by (simp add: str_nat_small digit_inj)
    next
      case False
      with \<open>m < 10\<close> "1.prems" show ?thesis
        using str_nat_nonempty [of "n div 10"]
        by (simp add: str_nat_small str_nat.simps [of n])
    qed
  next
    case False
    show ?thesis
    proof (cases "n < 10")
      case True
      with \<open>\<not> m < 10\<close> "1.prems" show ?thesis
        using str_nat_nonempty [of "m div 10"]
        by (simp add: str_nat_small str_nat.simps [of m])
    next
      case n: False
      from False n "1.prems"
      have e: "str_nat (m div 10) = str_nat (n div 10)" "digit (m mod 10) = digit (n mod 10)"
        by (simp_all add: str_nat.simps [of m] str_nat.simps [of n])
      from "1.IH" [OF False e(1)] have "m div 10 = n div 10" .
      moreover from e(2) have "m mod 10 = n mod 10"
        by (intro digit_inj) simp_all
      ultimately show ?thesis
        by (metis div_mult_mod_eq)
    qed
  qed
qed

lemma server_id_inj:
  "(''test-server'' @ str_nat r @ ''-id-'' @ str_nat r =
    ''test-server'' @ str_nat r' @ ''-id-'' @ str_nat r') = (r = r')"
proof
  assume "''test-server'' @ str_nat r @ ''-id-'' @ str_nat r =
          ''test-server'' @ str_nat r' @ ''-id-'' @ str_nat r'"
  then have e: "str_nat r @ (''-id-'' @ str_nat r) = str_nat r' @ (''-id-'' @ str_nat r')"
    by simp
  then have "length (str_nat r @ (''-id-'' @ str_nat r))
               = length (str_nat r' @ (''-id-'' @ str_nat r'))"
    by (rule arg_cong)
  then have "length (str_nat r) = length (str_nat r')" by simp
  with e have "str_nat r = str_nat r'" by (metis append_eq_append_conv)
  then show "r = r'" by (rule str_nat_inj)
qed simp


lemma from_creation_Inr:
  assumes "from_creation_request_json w js rnd = Inr (a, w1)"
  shows "a = length (heap w) \<and>
         (\<exists>srv. w1 = w\<lparr>heap := heap w @ [srv], servers := servers w @ [length (heap w)]\<rparr>
            \<and> status srv = ''ACTIVE''
            \<and> creation_time srv = clock_now w \<and> update_time srv = clock_now w
            \<and> server_id srv = ''test-server'' @ str_nat (id_draw rnd)
                                  @ ''-id-'' @ str_nat (id_draw rnd))"
  using assms
  by (auto simp: from_creation_request_json_def Let_def seconds_def
           split: option.splits if_splits field.splits)

lemma from_creation_valid:
  assumes "sj_name sj = Some name" and "sj_flavorRef sj = Some flavorRef"
    and "sj_imageRef sj \<noteq> Absent"
    and "disk_config_or_auto (sj_diskConfig sj) \<in> {''AUTO'', ''MANUAL''}"
  shows "\<exists>w1. from_creation_request_json w (Some sj) rnd = Inr (length (heap w), w1)"
  using assms
  by (cases "sj_imageRef sj") (auto simp: from_creation_request_json_def Let_def)

lemma ex_from_creation:
  "from_creation_request_json w (Some (ex_server_json md Absent)) (ex_draws n) =
     Inr (length (heap w),
          w\<lparr>heap := heap w @ [(ex_server n (case md of Val m \<Rightarrow> m | _ \<Rightarrow> []) ''ACTIVE'')
                                 \<lparr>creation_time := clock_now w, update_time := clock_now w\<rparr>],
            servers := servers w @ [length (heap w)]\<rparr>)"
  by (simp add: from_creation_request_json_def disk_config_or_auto_def ex_server_json_def
        ex_draws_def ex_server_def seconds_def str_nat_small digit_def Let_def)

lemma ex_step_create_plain:
  "create_behavior_registry w = [] \<Longrightarrow>
   step ex_lib id w (Create (Some (ex_server_json Absent Absent)) (ex_draws n)) =
     w\<lparr>heap := heap w @ [(ex_server n [] ''ACTIVE'')
                            \<lparr>creation_time := clock_now w, update_time := clock_now w\<rparr>],
       servers := servers w @ [length (heap w)]\<rparr>"
  by (simp add: request_creation_def metadata_to_creation_behavior_def ex_create_simps
        ex_from_creation)

text \<open>
  C2, as the claim states it, does not hold: the id is drawn by \<^verbatim>\<open>randrange\<close> and is
  not compared with the ids of the collection. Two creations with the same draw leave two
  servers with the same id in the collection.
\<close>

theorem same_draw_same_id:
  "server_ids (run ex_lib id ex_world
      [Create (Some (ex_server_json Absent Absent)) (ex_draws 7),
       Create (Some (ex_server_json Absent Absent)) (ex_draws 7)])
     = [''test-server7-id-7'', ''test-server7-id-7'']"
  by (simp add: run_def ex_step_create_plain ex_world_def new_collection_def server_ids_def
        ex_server_def str_nat_small digit_def del: step.simps)

text \<open>
  C2, amended. For a valid creation request without override metadata for which the
  registry returns the default behavior, \<^verbatim>\<open>request_creation\<close> answers 202 and appends
  one new server object to the sequence of the collection; its status is \<open>ACTIVE\<close>, its
  creation and update times are both the current time of the clock, and its id is
  \<open>test-server<r>-id-<r>\<close> for the number \<open>r\<close> that \<^verbatim>\<open>randrange\<close> drew, which
  determines \<open>r\<close>. The ids of the collection stay pairwise distinct when they were and no
  server of the collection already has the new id.
\<close>

theorem default_creation:
  assumes "wf w"
    and "override_metadata (Some sj) = Some md"
    and "map_of md ''create_server_failure'' = None"
    and "map_of md ''server_building'' = None"
    and "map_of md ''server_error'' = None"
    and "creation_attributes w (Some sj) = Inr attrs"
    and "behavior_for_attributes l (create_behavior_registry w) attrs
           = Inr (default_create_behavior None)"
    and "sj_flavorRef sj = Some flavorRef"
    and "sj_imageRef sj \<noteq> Absent"
    and "disk_config_or_auto (sj_diskConfig sj) \<in> {''AUTO'', ''MANUAL''}"
  shows "\<exists>srv w'. request_creation l w request (Some sj) url rnd =
             Inr (setResponseCode request ACCEPTED,
                  dumps l (creation_response_json w' url srv), w')
          \<and> w' = w\<lparr>heap := heap w @ [srv], servers := servers w @ [length (heap w)]\<rparr>
          \<and> heap w' ! last (servers w') = srv
          \<and> status srv = ''ACTIVE''
          \<and> creation_time srv = clock_now w \<and> update_time srv = clock_now w
          \<and> (\<forall>r. (server_id srv = ''test-server'' @ str_nat r @ ''-id-'' @ str_nat r)
                    = (r = id_draw rnd))
          \<and> (distinct (server_ids w) \<and> server_id srv \<notin> set (server_ids w)
                \<longrightarrow> distinct (server_ids w'))"
proof -
  from assms(6) obtain name where name: "sj_name sj = Some name"
    by (auto simp: creation_attributes_def split: option.splits)
  from from_creation_valid [OF name assms(8,9,10)]
  obtain w1 where c: "from_creation_request_json w (Some sj) rnd = Inr (length (heap w), w1)"
    by blast
  from from_creation_Inr [OF c] obtain srv where
    w1: "w1 = w\<lparr>heap := heap w @ [srv], servers := servers w @ [length (heap w)]\<rparr>"
    and srv: "status srv = ''ACTIVE''" "creation_time srv = clock_now w"
      "update_time srv = clock_now w"
      "server_id srv = ''test-server'' @ str_nat (id_draw rnd) @ ''-id-'' @ str_nat (id_draw rnd)"
    by blast
  have r: "request_creation l w request (Some sj) url rnd =
             Inr (setResponseCode request ACCEPTED,
                  dumps l (creation_response_json w1 url srv), w1)"
    using assms(2-7) c by (simp add: request_creation_def metadata_to_creation_behavior_def w1)
  have old: "\<forall>a\<in>set (servers w). a < length (heap w)"
    using assms(1) by (simp add: wf_def list_all_iff)
  have ids: "server_ids w1 = server_ids w @ [server_id srv]"
    using old by (simp add: server_ids_def w1 nth_append)
  have inj: "\<forall>r. (server_id srv = ''test-server'' @ str_nat r @ ''-id-'' @ str_nat r)
               = (r = id_draw rnd)"
    using server_id_inj [of "id_draw rnd"] by (auto simp: srv(4))
  show ?thesis
    using r srv(1-3) inj ids by (intro exI [of _ srv] exI [of _ w1]) (simp add: w1)
qed


lemma ex_wf: "wf ex_world" "wf (ex_one md st)"
  by (simp_all add: wf_def ex_world_def ex_one_def new_collection_def)

theorem default_creation_witness:
  "wf ex_world
   \<and> override_metadata (Some (ex_server_json Absent Absent)) = Some []
   \<and> behavior_for_attributes ex_lib (create_behavior_registry ex_world)
        \<lparr>attr_tenant_id = ''t1'', attr_server_name = ''web'', attr_metadata = None\<rparr>
        = Inr (default_create_behavior None)
   \<and> (\<exists>srv w'. request_creation ex_lib ex_world fresh_request
                    (Some (ex_server_json Absent Absent)) id (ex_draws 7) =
                  Inr (setResponseCode fresh_request ACCEPTED,
                       dumps ex_lib (creation_response_json w' id srv), w')
          \<and> w' = ex_world\<lparr>heap := heap ex_world @ [srv],
                            servers := servers ex_world @ [length (heap ex_world)]\<rparr>
          \<and> heap w' ! last (servers w') = srv
          \<and> status srv = ''ACTIVE''
          \<and> creation_time srv = clock_now ex_world \<and> update_time srv = clock_now ex_world
          \<and> (\<forall>r. (server_id srv = ''test-server'' @ str_nat r @ ''-id-'' @ str_nat r)
                    = (r = id_draw (ex_draws 7)))
          \<and> (distinct (server_ids ex_world) \<and> server_id srv \<notin> set (server_ids ex_world)
                \<longrightarrow> distinct (server_ids w')))"
  using default_creation
          [of ex_world "ex_server_json Absent Absent" "[]"
              "\<lparr>attr_tenant_id = ''t1'', attr_server_name = ''web'', attr_metadata = None\<rparr>"
              ex_lib "''2''" fresh_request id "ex_draws 7"]
        ex_wf(1)
  by (simp add: ex_create_simps)
     (simp add: ex_world_def new_collection_def ex_server_json_def disk_config_or_auto_def)

subsection \<open>Deleting a server\<close>







lemma ex_server_by_id:
  "server_by_id (ex_one md st) ''test-server7-id-7'' = Some 0"
  "server_by_id ex_world sid = None"
  by (simp_all add: server_by_id_def ex_one_def ex_world_def new_collection_def ex_server_def
        str_nat_small digit_def)

lemma ex_one_simps:
  "heap (ex_one md st) = [ex_server 7 md st]"
  "servers (ex_one md st) = [0]"
  "clock_now (ex_one md st) = 0"
  "clock_calls (ex_one md st) = []"
  "create_behavior_registry (ex_one md st) = []"
  "metadata (ex_server n md st) = md"
  "status (ex_server n md st) = st"
  "(ex_server n md st)\<lparr>metadata := md'\<rparr> = ex_server n md' st"
  "(ex_server n md st)\<lparr>status := st'\<rparr> = ex_server n md st'"
  "(ex_one md st)\<lparr>heap := [ex_server 7 md' st']\<rparr> = ex_one md' st'"
  by (simp_all add: ex_one_def ex_server_def ex_world_def new_collection_def)

lemma ex_loads_Suc:
  "loads ex_lib (times_text (Suc 0)) = Some (JObj [(''times'', JNum 1)])"
  using ex_loads(4) by simp

lemma ex_request_delete:
  "request_delete ex_lib ex_world fresh_request ''test-server7-id-7''
     = Inr (\<lparr>response_code = JNum 404\<rparr>, [], ex_world)"
  "request_delete ex_lib (ex_one [(''delete_server_failure'', times_text 2)] st) fresh_request
       ''test-server7-id-7''
     = Inr (\<lparr>response_code = JNum 500\<rparr>, [],
            ex_one [(''delete_server_failure'', times_text 1)] st)"
  "request_delete ex_lib (ex_one [(''delete_server_failure'', times_text 1)] st) fresh_request
       ''test-server7-id-7''
     = Inr (\<lparr>response_code = JNum 500\<rparr>, [],
            ex_one [(''delete_server_failure'', times_text 0)] st)"
  "request_delete ex_lib (ex_one [(''delete_server_failure'', times_text 0)] st) fresh_request
       ''test-server7-id-7''
     = Inr (\<lparr>response_code = JNum 204\<rparr>, [],
            (ex_one [(''delete_server_failure'', times_text 0)] st)\<lparr>servers := []\<rparr>)"
  by (simp_all add: request_delete_def ex_server_by_id ex_loads ex_loads_Suc ex_dumps
        setResponseCode_def fresh_request_def Let_def ex_one_simps)


subsection \<open>The clock: scheduling and firing\<close>

lemma set_schedule: "set (schedule c cs) = insert c (set cs)"
  by (induction cs) auto

lemma sorted_schedule:
  "sorted (map fst cs) \<Longrightarrow> sorted (map fst (schedule c cs))"
  by (induction cs) (auto simp: set_schedule)

lemma distinct_schedule:
  "distinct (map snd (schedule c cs)) = (snd c \<notin> snd ` set cs \<and> distinct (map snd cs))"
  by (induction cs) (auto simp: set_schedule)

lemma run_calls_calls: "fst (run_calls now cs h) = dropWhile (\<lambda>c. fst c \<le> now) cs"
  by (induction cs arbitrary: h) auto

lemma run_calls_length: "length (snd (run_calls now cs h)) = length h"
  by (induction cs arbitrary: h) (auto simp: set_active_def)

lemma run_calls_untouched:
  "b \<notin> snd ` set (takeWhile (\<lambda>c. fst c \<le> now) cs) \<Longrightarrow> snd (run_calls now cs h) ! b = h ! b"
proof (induction cs arbitrary: h)
  case Nil
  then show ?case by simp
next
  case (Cons c cs)
  obtain t a where c: "c = (t, a)" by (cases c)
  show ?case
  proof (cases "t \<le> now")
    case True
    with Cons.prems have ne: "b \<noteq> a"
      and rest: "b \<notin> snd ` set (takeWhile (\<lambda>c. fst c \<le> now) cs)"
      by (auto simp: c)
    from Cons.IH [OF rest, of "set_active a h"] ne True show ?thesis
      by (simp add: c set_active_def)
  next
    case False
    then show ?thesis by (simp add: c)
  qed
qed

lemma sorted_map_dropWhile:
  "sorted (map f xs) \<Longrightarrow> sorted (map f (dropWhile P xs))"
  by (induction xs) auto

lemma run_calls_status:
  "b < length h \<Longrightarrow>
   status (snd (run_calls now cs h) ! b) =
     (if b \<in> snd ` set (takeWhile (\<lambda>c. fst c \<le> now) cs) then ''ACTIVE'' else status (h ! b))"
proof (induction cs arbitrary: h)
  case Nil
  then show ?case by simp
next
  case (Cons c cs)
  obtain t a where c: "c = (t, a)" by (cases c)
  show ?case
  proof (cases "t \<le> now")
    case True
    have len: "b < length (set_active a h)" using Cons.prems by (simp add: set_active_def)
    have st: "status (set_active a h ! b) = (if b = a then ''ACTIVE'' else status (h ! b))"
      using Cons.prems by (simp add: set_active_def nth_list_update)
    from Cons.IH [OF len] True st show ?thesis by (auto simp: c)
  next
    case False
    then show ?thesis by (simp add: c)
  qed
qed

lemma sorted_takeWhile_filter:
  "sorted (map fst cs) \<Longrightarrow>
   takeWhile (\<lambda>c. fst c \<le> (now::rat)) cs = filter (\<lambda>c. fst c \<le> now) cs"
proof (induction cs)
  case Nil
  then show ?case by simp
next
  case (Cons c cs)
  show ?case
  proof (cases "fst c \<le> now")
    case True
    with Cons show ?thesis by simp
  next
    case False
    with Cons.prems have "\<forall>x\<in>set cs. \<not> fst x \<le> now" by fastforce
    then have "filter (\<lambda>c. fst c \<le> now) cs = []" by (simp add: filter_empty_conv)
    with False show ?thesis by simp
  qed
qed

lemma advance_fields:
  "clock_now (advance x w) = clock_now w + x"
  "clock_calls (advance x w) = dropWhile (\<lambda>c. fst c \<le> clock_now w + x) (clock_calls w)"
  "heap (advance x w) = snd (run_calls (clock_now w + x) (clock_calls w) (heap w))"
  "servers (advance x w) = servers w"
  "tenant_id (advance x w) = tenant_id w"
  "create_behavior_registry (advance x w) = create_behavior_registry w"
  by (simp_all add: advance_def Let_def split_beta run_calls_calls)

lemma wf_calls:
  assumes "wf w" and "(t, a) \<in> set (clock_calls w)"
  shows "a < length (heap w)" and "status (heap w ! a) = ''BUILD''"
  using assms by (auto simp: wf_def list_all_iff)

lemma fired_not_pending:
  assumes "distinct (map snd cs)"
    and "c \<in> set (dropWhile P cs)"
  shows "snd c \<notin> snd ` set (takeWhile P cs)"
proof -
  have "distinct (map snd (takeWhile P cs @ dropWhile P cs))" using assms(1) by simp
  then have "snd ` set (takeWhile P cs) \<inter> snd ` set (dropWhile P cs) = {}"
    by (simp only: map_append distinct_append set_map)
  with assms(2) show ?thesis by blast
qed

lemma wf_advance:
  assumes "wf w"
  shows "wf (advance x w)"
proof -
  let ?P = "\<lambda>c. fst c \<le> clock_now w + x"
  let ?h = "snd (run_calls (clock_now w + x) (clock_calls w) (heap w))"
  from assms have d: "distinct (map snd (clock_calls w))"
    and s: "sorted (map fst (clock_calls w))" by (simp_all add: wf_def)
  have 1: "distinct (servers w)" "list_all (\<lambda>a. a < length ?h) (servers w)"
    using assms by (simp_all add: wf_def run_calls_length)
  have 2: "sorted (map fst (dropWhile ?P (clock_calls w)))"
    using s by (rule sorted_map_dropWhile)
  have 3: "distinct (map snd (dropWhile ?P (clock_calls w)))"
    using d by (metis distinct_dropWhile distinct_map inj_on_subset set_dropWhileD subsetI)
  have 4: "list_all (\<lambda>(t, a). a < length ?h \<and> status (?h ! a) = ''BUILD'')
             (dropWhile ?P (clock_calls w))"
    unfolding list_all_iff
  proof (intro ballI)
    fix c assume c: "c \<in> set (dropWhile ?P (clock_calls w))"
    obtain t a where ta: "c = (t, a)" by (cases c)
    from c have "c \<in> set (clock_calls w)" by (rule set_dropWhileD)
    with ta wf_calls [OF assms] have a: "a < length (heap w)" "status (heap w ! a) = ''BUILD''"
      by blast+
    from fired_not_pending [OF d c] ta
    have "a \<notin> snd ` set (takeWhile ?P (clock_calls w))" by simp
    then have "?h ! a = heap w ! a" by (rule run_calls_untouched)
    with a show "case c of (t, a) \<Rightarrow> a < length ?h \<and> status (?h ! a) = ''BUILD''"
      by (simp add: ta run_calls_length)
  qed
  from 1 2 3 4 show ?thesis by (simp add: wf_def advance_fields)
qed

subsection \<open>What the operations change\<close>

lemma run_hook_fields:
  assumes "a = length h0" and "heap c1 = h0 @ [srv]"
  shows "servers (run_hook hk a c1) = servers c1"
    and "clock_now (run_hook hk a c1) = clock_now c1"
    and "tenant_id (run_hook hk a c1) = tenant_id c1"
    and "create_behavior_registry (run_hook hk a c1) = create_behavior_registry c1"
    and "hk = set_error \<Longrightarrow>
           heap (run_hook hk a c1) = h0 @ [srv\<lparr>status := ''ERROR''\<rparr>]
           \<and> clock_calls (run_hook hk a c1) = clock_calls c1"
    and "hk = set_building d \<Longrightarrow>
           heap (run_hook hk a c1) = h0 @ [srv\<lparr>status := ''BUILD''\<rparr>]
           \<and> clock_calls (run_hook hk a c1) = schedule (clock_now c1 + d, a) (clock_calls c1)"
  using assms by (cases hk; simp add: callLater_def seconds_def)+

lemma run_behavior_cases:
  assumes "run_behavior l b w r js url rnd = Inr (r', body, w')"
  shows "w' = w \<or> (\<exists>srv. created w w' srv)"
proof (cases b)
  case (fail_without_creating c m)
  with assms show ?thesis by simp
next
  case (default_create_behavior hk)
  with assms obtain a c1 where c: "from_creation_request_json w js rnd = Inr (a, c1)"
    and w': "w' = (case hk of None \<Rightarrow> c1 | Some h \<Rightarrow> run_hook h a c1)"
    by (auto simp: Let_def split: sum.splits)
  from from_creation_Inr [OF c] obtain srv where a: "a = length (heap w)"
    and c1: "c1 = w\<lparr>heap := heap w @ [srv], servers := servers w @ [length (heap w)]\<rparr>"
    and st: "status srv = ''ACTIVE''" by blast
  have h1: "heap c1 = heap w @ [srv]" by (simp add: c1)
  show ?thesis
  proof (cases hk)
    case None
    with w' c1 st have "created w w' srv" by (simp add: created_def)
    then show ?thesis by blast
  next
    case (Some h)
    show ?thesis
    proof (cases h)
      case set_error
      with Some w' run_hook_fields(1,2,5) [OF a h1, of h]
      have "created w w' (srv\<lparr>status := ''ERROR''\<rparr>)"
        by (simp add: created_def c1)
      then show ?thesis by blast
    next
      case (set_building d)
      with Some w' run_hook_fields(1,2) [OF a h1, of h] run_hook_fields(6) [OF a h1, of h d]
      have "created w w' (srv\<lparr>status := ''BUILD''\<rparr>)"
        by (auto simp: created_def c1 a)
      then show ?thesis by blast
    qed
  qed
qed

lemma request_creation_cases:
  assumes "request_creation l w r js url rnd = Inr (r', body, w')"
  shows "w' = w \<or> (\<exists>srv. created w w' srv)"
  using assms
  by (auto simp: request_creation_def split: sum.splits option.splits
           dest: run_behavior_cases)

lemma status_update_metadata:
  "status (h[a := (h ! a)\<lparr>metadata := m\<rparr>] ! b) = status (h ! b)"
  by (cases "a < length h"; cases "b = a"; simp add: list_update_beyond)

lemma request_delete_fields:
  assumes "request_delete l w r sid = Inr (r', body, w')"
  shows "clock_now w' = clock_now w" and "clock_calls w' = clock_calls w"
    and "length (heap w') = length (heap w)"
    and "status (heap w' ! b) = status (heap w ! b)"
    and "servers w' = servers w \<or> (\<exists>a. servers w' = remove1 a (servers w))"
proof -
  have "clock_now w' = clock_now w \<and> clock_calls w' = clock_calls w
        \<and> length (heap w') = length (heap w)
        \<and> status (heap w' ! b) = status (heap w ! b)
        \<and> (servers w' = servers w \<or> (\<exists>a. servers w' = remove1 a (servers w)))"
    using assms
    by (auto simp: request_delete_def Let_def status_update_metadata
             split: option.splits sum.splits if_splits json.splits)
  then show "clock_now w' = clock_now w" and "clock_calls w' = clock_calls w"
    and "length (heap w') = length (heap w)"
    and "status (heap w' ! b) = status (heap w ! b)"
    and "servers w' = servers w \<or> (\<exists>a. servers w' = remove1 a (servers w))"
    by blast+
qed

subsection \<open>Well-formed states\<close>

lemma wf_created:
  assumes "wf w" and "created w w' srv"
  shows "wf w'"
proof -
  let ?n = "length (heap w)"
  from assms(1) have old: "\<forall>a\<in>set (servers w). a < ?n"
    and calls: "\<forall>c\<in>set (clock_calls w). snd c < ?n \<and> status (heap w ! snd c) = ''BUILD''"
    and d: "distinct (servers w)" "distinct (map snd (clock_calls w))"
      "sorted (map fst (clock_calls w))"
    by (auto simp: wf_def list_all_iff)
  from assms(2) have h: "heap w' = heap w @ [srv]" and s: "servers w' = servers w @ [?n]"
    by (simp_all add: created_def)
  have 1: "distinct (servers w')" using d(1) old s by auto
  have 2: "list_all (\<lambda>a. a < length (heap w')) (servers w')"
    using old by (auto simp: list_all_iff h s)
  from assms(2) consider
      (same) "clock_calls w' = clock_calls w"
    | (build) d' where "status srv = ''BUILD''"
        "clock_calls w' = schedule (clock_now w + d', ?n) (clock_calls w)"
    by (auto simp: created_def)
  then show ?thesis
  proof cases
    case same
    have "list_all (\<lambda>(t, a). a < length (heap w') \<and> status (heap w' ! a) = ''BUILD'')
            (clock_calls w')"
      using calls by (auto simp: list_all_iff h same nth_append)
    with 1 2 d(2,3) same show ?thesis by (simp add: wf_def)
  next
    case build
    have fresh: "?n \<notin> snd ` set (clock_calls w)" using calls by auto
    have 3: "sorted (map fst (clock_calls w'))" "distinct (map snd (clock_calls w'))"
      using d(2,3) fresh by (simp_all add: build(2) sorted_schedule distinct_schedule)
    have "list_all (\<lambda>(t, a). a < length (heap w') \<and> status (heap w' ! a) = ''BUILD'')
            (clock_calls w')"
      using calls build(1)
      by (auto simp: list_all_iff h build(2) set_schedule nth_append)
    with 1 2 3 show ?thesis by (simp add: wf_def)
  qed
qed

lemma wf_request_creation:
  assumes "wf w" and "request_creation l w r js url rnd = Inr (r', body, w')"
  shows "wf w'"
  using request_creation_cases [OF assms(2)] assms(1) wf_created by blast

lemma wf_request_delete:
  assumes "wf w" and "request_delete l w r sid = Inr (r', body, w')"
  shows "wf w'"
proof -
  note f = request_delete_fields [OF assms(2)]
  from f(5) assms(1) have 1: "distinct (servers w')" "set (servers w') \<subseteq> set (servers w)"
    by (auto simp: wf_def dest: notin_set_remove1)
  with assms(1) f(1-4) show ?thesis
    by (auto simp: wf_def list_all_iff)
qed

lemma wf_step:
  assumes "wf w"
  shows "wf (step l url w op)"
proof (cases op)
  case (Create js rnd)
  with assms show ?thesis
    by (auto split: sum.splits dest: wf_request_creation)
next
  case (Delete sid)
  with assms show ?thesis
    by (auto split: sum.splits dest: wf_request_delete)
next
  case (Advance x)
  with assms show ?thesis by (simp add: wf_advance)
qed (use assms in simp_all)

lemma run_Cons: "run l url w (op # ops) = run l url (step l url w op) ops"
  by (simp add: run_def)

lemma run_Nil: "run l url w [] = w"
  by (simp add: run_def)

lemma run_snoc: "run l url w (ops @ [op]) = step l url (run l url w ops) op"
  by (simp add: run_def)

lemma wf_run:
  "wf w \<Longrightarrow> wf (run l url w ops)"
  by (induction ops arbitrary: w) (simp_all add: run_Nil run_Cons wf_step)

lemma wf_new_collection: "wf (new_collection tenant region now)"
  by (simp add: wf_def new_collection_def)

subsection \<open>One step of a run\<close>

lemma step_fields:
  assumes "\<not> is_advance op"
  shows "clock_now (step l url w op) = clock_now w"
    and "set (clock_calls w) \<subseteq> set (clock_calls (step l url w op))"
    and "length (heap w) \<le> length (heap (step l url w op))"
    and "a < length (heap w) \<Longrightarrow> status (heap (step l url w op) ! a) = status (heap w ! a)"
    and "c \<in> set (clock_calls (step l url w op)) \<Longrightarrow>
           c \<in> set (clock_calls w) \<or> snd c = length (heap w)"
proof -
  have "clock_now (step l url w op) = clock_now w
      \<and> set (clock_calls w) \<subseteq> set (clock_calls (step l url w op))
      \<and> length (heap w) \<le> length (heap (step l url w op))
      \<and> (a < length (heap w) \<longrightarrow> status (heap (step l url w op) ! a) = status (heap w ! a))
      \<and> (c \<in> set (clock_calls (step l url w op)) \<longrightarrow>
           c \<in> set (clock_calls w) \<or> snd c = length (heap w))"
  proof (cases op)
    case (Create js rnd)
    show ?thesis
    proof (cases "request_creation l w fresh_request js url rnd")
      case (Inl e)
      with Create show ?thesis by simp
    next
      case (Inr res)
      obtain r' body w' where res: "res = (r', body, w')" by (cases res)
      with Inr Create have st: "step l url w op = w'" by simp
      from request_creation_cases [OF Inr [unfolded res]]
      show ?thesis unfolding st
        by (auto simp: created_def set_schedule nth_append)
    qed
  next
    case (Delete sid)
    show ?thesis
    proof (cases "request_delete l w fresh_request sid")
      case (Inl e)
      with Delete show ?thesis by simp
    next
      case (Inr res)
      obtain r' body w' where res: "res = (r', body, w')" by (cases res)
      with Inr Delete have st: "step l url w op = w'" by simp
      from request_delete_fields [OF Inr [unfolded res]]
      show ?thesis unfolding st by simp
    qed
  qed (use assms in simp_all)
  then show "clock_now (step l url w op) = clock_now w"
    and "set (clock_calls w) \<subseteq> set (clock_calls (step l url w op))"
    and "length (heap w) \<le> length (heap (step l url w op))"
    and "a < length (heap w) \<Longrightarrow> status (heap (step l url w op) ! a) = status (heap w ! a)"
    and "c \<in> set (clock_calls (step l url w op)) \<Longrightarrow>
           c \<in> set (clock_calls w) \<or> snd c = length (heap w)"
    by blast+
qed

subsection \<open>Pending and settled servers along a run\<close>

lemma advance_status:
  assumes "a < length (heap w)"
  shows "status (heap (advance x w) ! a) =
           (if a \<in> snd ` set (takeWhile (\<lambda>c. fst c \<le> clock_now w + x) (clock_calls w))
            then ''ACTIVE'' else status (heap w ! a))"
  using run_calls_status [OF assms] by (simp add: advance_fields)

lemma step_settled:
  assumes "wf w" and "a < length (heap w)" and "a \<notin> snd ` set (clock_calls w)"
  shows "a < length (heap (step l url w op))"
    and "a \<notin> snd ` set (clock_calls (step l url w op))"
    and "status (heap (step l url w op) ! a) = status (heap w ! a)"
proof -
  have "a < length (heap (step l url w op))
      \<and> a \<notin> snd ` set (clock_calls (step l url w op))
      \<and> status (heap (step l url w op) ! a) = status (heap w ! a)"
  proof (cases "is_advance op")
    case True
    then obtain x where op: "op = Advance x" by (cases op) simp_all
    let ?P = "\<lambda>c. fst c \<le> clock_now w + x"
    have "a \<notin> snd ` set (takeWhile ?P (clock_calls w))"
      using assms(3) by (auto dest: set_takeWhileD)
    moreover have "a \<notin> snd ` set (dropWhile ?P (clock_calls w))"
      using assms(3) by (auto dest: set_dropWhileD)
    ultimately show ?thesis
      using assms(2) run_calls_untouched [of a "clock_now w + x" "clock_calls w" "heap w"]
      by (simp add: op advance_fields run_calls_length)
  next
    case False
    note f = step_fields [OF False]
    have "a \<notin> snd ` set (clock_calls (step l url w op))"
    proof
      assume "a \<in> snd ` set (clock_calls (step l url w op))"
      then obtain c where c: "c \<in> set (clock_calls (step l url w op))" "snd c = a" by auto
      from f(5) [OF c(1)] c(2) assms(2,3) show False by auto
    qed
    moreover from f(3) [of w l url] assms(2) have "a < length (heap (step l url w op))"
      by simp
    moreover note f(4) [OF assms(2), of l url]
    ultimately show ?thesis by simp
  qed
  then show "a < length (heap (step l url w op))"
    and "a \<notin> snd ` set (clock_calls (step l url w op))"
    and "status (heap (step l url w op) ! a) = status (heap w ! a)"
    by blast+
qed

lemma settled_status:
  "wf w \<Longrightarrow> a < length (heap w) \<Longrightarrow> a \<notin> snd ` set (clock_calls w) \<Longrightarrow>
   status (heap (run l url w ops) ! a) = status (heap w ! a)"
proof (induction ops arbitrary: w)
  case Nil
  then show ?case by (simp add: run_Nil)
next
  case (Cons op ops)
  note s = step_settled [OF Cons.prems, of l url op]
  from Cons.IH [OF wf_step [OF Cons.prems(1)] s(1) s(2)] s(3)
  show ?case by (simp add: run_Cons)
qed

lemma forward_elapsed: "forward ops \<Longrightarrow> 0 \<le> elapsed ops"
  by (induction ops rule: elapsed.induct) (simp_all add: forward_def)

lemma no_advance_elapsed: "\<forall>op\<in>set ops. \<not> is_advance op \<Longrightarrow> elapsed ops = 0"
  by (induction ops rule: elapsed.induct) simp_all

lemma forward_Cons:
  "forward (op # ops) = ((case op of Advance x \<Rightarrow> 0 \<le> x | _ \<Rightarrow> True) \<and> forward ops)"
  by (simp add: forward_def)

lemma pending_status:
  "wf w \<Longrightarrow> (T, a) \<in> set (clock_calls w) \<Longrightarrow> forward ops \<Longrightarrow>
   status (heap (run l url w ops) ! a) =
     (if (\<exists>op\<in>set ops. is_advance op) \<and> T \<le> clock_now w + elapsed ops
      then ''ACTIVE'' else ''BUILD'')"
proof (induction ops arbitrary: w)
  case Nil
  then show ?case using wf_calls(2) by (simp add: run_Nil)
next
  case (Cons op ops)
  from Cons.prems(3) have fw: "forward ops" by (simp add: forward_Cons)
  note wf1 = wf_step [OF Cons.prems(1), of l url op]
  show ?case
  proof (cases "is_advance op")
    case False
    note f = step_fields [OF False]
    from f(2) Cons.prems(2) have p: "(T, a) \<in> set (clock_calls (step l url w op))" by blast
    have e: "elapsed (op # ops) = elapsed ops" using False by (cases op) simp_all
    from Cons.IH [OF wf1 p fw] False show ?thesis
      by (simp add: run_Cons f(1) e)
  next
    case True
    then obtain x where op: "op = Advance x" by (cases op) simp_all
    from Cons.prems(3) have x: "0 \<le> x" by (simp add: forward_Cons op)
    let ?P = "\<lambda>c. fst c \<le> clock_now w + x"
    from Cons.prems(1) have srt: "sorted (map fst (clock_calls w))"
      and dst: "distinct (map snd (clock_calls w))" by (simp_all add: wf_def)
    have len: "a < length (heap w)" using wf_calls(1) [OF Cons.prems(1,2)] .
    show ?thesis
    proof (cases "T \<le> clock_now w + x")
      case True
      have "(T, a) \<in> set (filter ?P (clock_calls w))" using Cons.prems(2) True by simp
      then have fired: "(T, a) \<in> set (takeWhile ?P (clock_calls w))"
        by (simp only: sorted_takeWhile_filter [OF srt])
      then have "a \<in> snd ` set (takeWhile ?P (clock_calls w))" by force
      then have act: "status (heap (advance x w) ! a) = ''ACTIVE''"
        by (simp add: advance_status [OF len])
      have gone: "a \<notin> snd ` set (clock_calls (advance x w))"
      proof
        assume "a \<in> snd ` set (clock_calls (advance x w))"
        then obtain c where c: "c \<in> set (dropWhile ?P (clock_calls w))" "snd c = a"
          by (auto simp: advance_fields)
        from fired have "snd (T, a) \<in> snd ` set (takeWhile ?P (clock_calls w))"
          by (rule imageI)
        with fired_not_pending [OF dst c(1)] c(2) show False by simp
      qed
      have len1: "a < length (heap (advance x w))"
        using len by (simp add: advance_fields run_calls_length)
      from settled_status [OF wf1 [unfolded op step.simps] len1 gone, of l url ops] act
      have "status (heap (run l url w (op # ops)) ! a) = ''ACTIVE''"
        by (simp add: run_Cons op)
      moreover have "T \<le> clock_now w + elapsed (op # ops)"
        using True forward_elapsed [OF fw] by (simp add: op)
      ultimately show ?thesis by (simp add: op)
    next
      case False
      from Cons.prems(2) False have "(T, a) \<in> set (filter (\<lambda>c. \<not> ?P c) (clock_calls w))"
        by simp
      moreover have "dropWhile ?P (clock_calls w) = filter (\<lambda>c. \<not> ?P c) (clock_calls w)"
      proof -
        have "takeWhile ?P (clock_calls w) @ dropWhile ?P (clock_calls w) = clock_calls w"
          by simp
        moreover have "\<forall>c\<in>set (dropWhile ?P (clock_calls w)). \<not> ?P c"
        proof
          fix c assume c: "c \<in> set (dropWhile ?P (clock_calls w))"
          show "\<not> ?P c"
          proof
            assume "?P c"
            with c have "c \<in> set (filter ?P (clock_calls w))"
              by (auto dest: set_dropWhileD)
            then have "c \<in> set (takeWhile ?P (clock_calls w))"
              by (simp only: sorted_takeWhile_filter [OF srt])
            then have "snd c \<in> snd ` set (takeWhile ?P (clock_calls w))"
              by (rule imageI)
            with fired_not_pending [OF dst c] show False by simp
          qed
        qed
        ultimately show ?thesis
          by (metis (mono_tags, lifting) filter_append filter_True filter_False
                append_self_conv2 set_takeWhileD)
      qed
      ultimately have p: "(T, a) \<in> set (clock_calls (advance x w))"
        by (simp add: advance_fields)
      from Cons.IH [OF wf1 [unfolded op step.simps] p fw]
      have ih: "status (heap (run l url w (op # ops)) ! a) =
             (if (\<exists>op\<in>set ops. is_advance op) \<and> T \<le> clock_now w + x + elapsed ops
              then ''ACTIVE'' else ''BUILD'')"
        by (simp add: run_Cons op advance_fields)
      show ?thesis
      proof (cases "\<exists>op\<in>set ops. is_advance op")
        case True
        with ih show ?thesis by (simp add: op add.assoc)
      next
        case no: False
        then have "elapsed ops = 0" by (intro no_advance_elapsed) blast
        with ih no False show ?thesis by (simp add: op)
      qed
    qed
  qed
qed

subsection \<open>The build behavior\<close>

text \<open>
  C3. A creation request whose metadata maps \<open>server_building\<close> to a string that
  \<open>float_of\<close> reads as \<open>d\<close> (and has no \<open>create_server_failure\<close> key) appends a new
  server whose status is \<open>BUILD\<close> when the call returns. After any further run of
  operations in which the clock only moves forward, the status of that server is
  \<open>ACTIVE\<close> if the clock has been advanced and the advances add up to at least \<open>d\<close>
  seconds, and it is still \<open>BUILD\<close> otherwise.
\<close>

theorem building_server_becomes_active:
  assumes "wf w"
    and "override_metadata js = Some md"
    and "map_of md ''create_server_failure'' = None"
    and "map_of md ''server_building'' = Some v"
    and "float_of l v = Some d"
    and "request_creation l w request js url rnd = Inr (request', body, w')"
  shows "servers w' = servers w @ [length (heap w)]
       \<and> status (heap w' ! length (heap w)) = ''BUILD''
       \<and> (\<forall>ops. forward ops \<longrightarrow>
            status (heap (run l url w' ops) ! length (heap w)) =
              (if (\<exists>op\<in>set ops. is_advance op) \<and> d \<le> elapsed ops
               then ''ACTIVE'' else ''BUILD''))"
proof -
  let ?n = "length (heap w)"
  from assms(2-6)
  have rb: "run_behavior l (default_create_behavior (Some (set_building d))) w request js url rnd
              = Inr (request', body, w')"
    by (simp add: request_creation_def metadata_to_creation_behavior_def default_with_hook_def)
  then obtain a c1 where c: "from_creation_request_json w js rnd = Inr (a, c1)"
    and w': "w' = run_hook (set_building d) a c1"
    by (auto simp: Let_def split: sum.splits)
  from from_creation_Inr [OF c] obtain srv where a: "a = ?n"
    and c1: "c1 = w\<lparr>heap := heap w @ [srv], servers := servers w @ [?n]\<rparr>"
    by blast
  have h1: "heap c1 = heap w @ [srv]" by (simp add: c1)
  note hk = run_hook_fields [OF a h1, of "set_building d"]
  from hk(6) [of d] have hp: "heap w' = heap w @ [srv\<lparr>status := ''BUILD''\<rparr>]"
    and cl: "clock_calls w' = schedule (clock_now w + d, ?n) (clock_calls w)"
    by (simp_all add: w' c1 a)
  have sv: "servers w' = servers w @ [?n]" using hk(1) by (simp add: w' c1)
  have nw: "clock_now w' = clock_now w" using hk(2) by (simp add: w' c1)
  have st: "status (heap w' ! ?n) = ''BUILD''" by (simp add: hp)
  have wf': "wf w'" using assms(1,6) by (rule wf_request_creation)
  have pend: "(clock_now w + d, ?n) \<in> set (clock_calls w')" by (simp add: cl set_schedule)
  have "\<forall>ops. forward ops \<longrightarrow>
          status (heap (run l url w' ops) ! ?n) =
            (if (\<exists>op\<in>set ops. is_advance op) \<and> d \<le> elapsed ops
             then ''ACTIVE'' else ''BUILD'')"
  proof (intro allI impI)
    fix ops assume "forward ops"
    from pending_status [OF wf' pend this, of l url]
    show "status (heap (run l url w' ops) ! ?n) =
            (if (\<exists>op\<in>set ops. is_advance op) \<and> d \<le> elapsed ops
             then ''ACTIVE'' else ''BUILD'')"
      by (simp add: nw)
  qed
  with sv st show ?thesis by blast
qed

subsection \<open>The scheduled call of a deleted server\<close>

lemma response_code_set: "response_code (setResponseCode r c) = c"
  by (simp add: setResponseCode_def)

lemma request_delete_204:
  assumes "server_by_id w sid = Some a"
    and "request_delete l w request sid = Inr (request', body, w')"
    and "response_code request' = JNum 204"
  shows "w' = w\<lparr>servers := remove1 a (servers w)\<rparr>"
  using assms
  by (auto simp: request_delete_def Let_def setResponseCode_def
           split: option.splits sum.splits if_splits json.splits)

text \<open>
  C7, as the claim states it, does not hold: the scheduled callable is
  \<^verbatim>\<open>lambda: setattr(server, "status", u"ACTIVE")\<close> and tests nothing. A server is
  created with a build of 5 seconds and deleted; the collection is empty and the removed
  object is still \<open>BUILD\<close>; advancing the clock by 5 seconds sets the status of the
  removed object to \<open>ACTIVE\<close>.
\<close>

theorem callback_mutates_removed_server:
  "servers (run ex_lib id ex_world
      [Create (Some (ex_server_json (Val [(''server_building'', ''5'')]) Absent)) (ex_draws 7),
       Delete ''test-server7-id-7'']) = []
   \<and> status (heap (run ex_lib id ex_world
      [Create (Some (ex_server_json (Val [(''server_building'', ''5'')]) Absent)) (ex_draws 7),
       Delete ''test-server7-id-7'']) ! 0) = ''BUILD''
   \<and> status (heap (run ex_lib id ex_world
      [Create (Some (ex_server_json (Val [(''server_building'', ''5'')]) Absent)) (ex_draws 7),
       Delete ''test-server7-id-7'', Advance 5]) ! 0) = ''ACTIVE''"
  by (simp add: run_def request_creation_def metadata_to_creation_behavior_def ex_create_simps
        ex_float default_with_hook_def ex_from_creation callLater_def seconds_def
        request_delete_def server_by_id_def advance_def set_active_def Let_def
        ex_world_def new_collection_def ex_server_def str_nat_small digit_def)

text \<open>
  C7, amended. When a server \<open>a\<close> with a pending call is deleted (answer 204), the call
  stays scheduled and \<open>a\<close> is no longer in the sequence of the collection. The callable
  performs no check: it sets the status of the removed object from \<open>BUILD\<close> to
  \<open>ACTIVE\<close>. Because the object is not in the collection any more, the callable changes
  no server of the collection, and advancing the clock past the time of the call leaves
  the sequence of the collection as it is.
\<close>

theorem callback_after_delete:
  assumes "wf w"
    and "(t, a) \<in> set (clock_calls w)"
    and "server_by_id w sid = Some a"
    and "request_delete l w request sid = Inr (request', body, w')"
    and "response_code request' = JNum 204"
  shows "a \<notin> set (servers w')
       \<and> (t, a) \<in> set (clock_calls w')
       \<and> status (heap w' ! a) = ''BUILD''
       \<and> status (set_active a (heap w') ! a) = ''ACTIVE''
       \<and> (\<forall>b\<in>set (servers w'). set_active a (heap w') ! b = heap w' ! b)
       \<and> (\<forall>x. t \<le> clock_now w' + x \<longrightarrow>
             servers (advance x w') = servers w'
             \<and> status (heap (advance x w') ! a) = ''ACTIVE'')"
proof -
  from request_delete_204 [OF assms(3,4,5)]
  have w': "w' = w\<lparr>servers := remove1 a (servers w)\<rparr>" .
  from assms(1) have d: "distinct (servers w)" and srt: "sorted (map fst (clock_calls w))"
    by (simp_all add: wf_def)
  note c = wf_calls [OF assms(1,2)]
  have 1: "a \<notin> set (servers w')" using d by (simp add: w')
  have 2: "(t, a) \<in> set (clock_calls w')" using assms(2) by (simp add: w')
  have 3: "status (heap w' ! a) = ''BUILD''" using c(2) by (simp add: w')
  have 4: "status (set_active a (heap w') ! a) = ''ACTIVE''"
    using c(1) by (simp add: w' set_active_def)
  have 5: "\<forall>b\<in>set (servers w'). set_active a (heap w') ! b = heap w' ! b"
  proof
    fix b assume "b \<in> set (servers w')"
    with 1 have "b \<noteq> a" by blast
    then show "set_active a (heap w') ! b = heap w' ! b"
      by (simp add: set_active_def)
  qed
  have 6: "\<forall>x. t \<le> clock_now w' + x \<longrightarrow>
             servers (advance x w') = servers w'
             \<and> status (heap (advance x w') ! a) = ''ACTIVE''"
  proof (intro allI impI)
    fix x assume due: "t \<le> clock_now w' + x"
    let ?P = "\<lambda>c. fst c \<le> clock_now w' + x"
    have len: "a < length (heap w')" using c(1) by (simp add: w')
    have "(t, a) \<in> set (filter ?P (clock_calls w'))" using 2 due by simp
    moreover have "sorted (map fst (clock_calls w'))" using srt by (simp add: w')
    ultimately have "(t, a) \<in> set (takeWhile ?P (clock_calls w'))"
      by (simp only: sorted_takeWhile_filter)
    then have "snd (t, a) \<in> snd ` set (takeWhile ?P (clock_calls w'))" by (rule imageI)
    then show "servers (advance x w') = servers w'
               \<and> status (heap (advance x w') ! a) = ''ACTIVE''"
      by (simp add: advance_status [OF len] advance_fields(4))
  qed
  from 1 2 3 4 5 6 show ?thesis by blast
qed

subsection \<open>The status of a server over its lifetime\<close>

lemma status_step_ok_step:
  assumes "wf w"
  shows "status_step_ok w (step l url w op)"
proof (cases "is_advance op")
  case True
  then obtain x where op: "op = Advance x" by (cases op) simp_all
  let ?P = "\<lambda>c. fst c \<le> clock_now w + x"
  have "\<forall>a < length (heap w).
          status (heap (advance x w) ! a) = status (heap w ! a) \<or>
          (status (heap w ! a) = ''BUILD'' \<and> status (heap (advance x w) ! a) = ''ACTIVE'')"
  proof (intro allI impI)
    fix a assume len: "a < length (heap w)"
    show "status (heap (advance x w) ! a) = status (heap w ! a) \<or>
          (status (heap w ! a) = ''BUILD'' \<and> status (heap (advance x w) ! a) = ''ACTIVE'')"
    proof (cases "a \<in> snd ` set (takeWhile ?P (clock_calls w))")
      case True
      then obtain t where "(t, a) \<in> set (clock_calls w)"
        by (auto dest: set_takeWhileD)
      from wf_calls(2) [OF assms this] True show ?thesis
        by (simp add: advance_status [OF len])
    next
      case False
      then show ?thesis by (simp add: advance_status [OF len])
    qed
  qed
  then show ?thesis
    by (simp add: status_step_ok_def op advance_fields(3) run_calls_length)
next
  case False
  have "step l url w op = w \<or> (\<exists>srv. created w (step l url w op) srv)
        \<or> (length (heap (step l url w op)) = length (heap w)
            \<and> (\<forall>b. status (heap (step l url w op) ! b) = status (heap w ! b)))"
  proof (cases op)
    case (Create js rnd)
    then show ?thesis
      by (auto split: sum.splits dest: request_creation_cases)
  next
    case (Delete sid)
    then show ?thesis
      by (auto split: sum.splits dest: request_delete_fields(3,4))
  qed (use False in simp_all)
  then show ?thesis
    by (auto simp: status_step_ok_def created_def nth_append less_Suc_eq)
qed

text \<open>
  C9. Along every run of operations (creations with any behavior, deletions, reads,
  listings and advances of the clock, which fire the scheduled calls) from a well-formed
  state, such as a new collection, each operation leaves the status of every existing
  server object unchanged or takes it from \<open>BUILD\<close> to \<open>ACTIVE\<close>, and a server object
  that the operation creates starts as \<open>ACTIVE\<close>, \<open>BUILD\<close> or \<open>ERROR\<close>. So no status
  goes from \<open>BUILD\<close> to \<open>ERROR\<close> or from \<open>ACTIVE\<close> to \<open>BUILD\<close>.
\<close>

theorem status_transitions:
  assumes "wf w" and "i < length ops"
  shows "status_step_ok (run l url w (take i ops)) (run l url w (take (Suc i) ops))"
proof -
  have "take (Suc i) ops = take i ops @ [ops ! i]"
    using assms(2) by (rule take_Suc_conv_app_nth)
  then have "run l url w (take (Suc i) ops) = step l url (run l url w (take i ops)) (ops ! i)"
    by (simp only: run_snoc)
  moreover have "wf (run l url w (take i ops))" using assms(1) by (rule wf_run)
  ultimately show ?thesis by (simp only: status_step_ok_step)
qed

lemma ex_building_simps:
  "heap ex_building = [ex_server 7 [(''server_building'', ''5'')] ''BUILD'']"
  "servers ex_building = [0]"
  "clock_now ex_building = 0"
  "clock_calls ex_building = [(5, 0)]"
  by (simp_all add: ex_building_def ex_one_simps)

lemma ex_wf_building: "wf ex_building"
  by (simp add: wf_def ex_building_simps ex_one_simps)

lemma ex_create_building:
  "request_creation ex_lib ex_world fresh_request ex_build_request id (ex_draws 7) =
     Inr (setResponseCode fresh_request ACCEPTED,
          dumps ex_lib (creation_response_json ex_building id
                          (ex_server 7 [(''server_building'', ''5'')] ''BUILD'')),
          ex_building)"
  by (simp add: ex_build_request_def request_creation_def metadata_to_creation_behavior_def
        ex_create_simps ex_float default_with_hook_def ex_from_creation callLater_def
        seconds_def Let_def ex_building_def ex_one_def)
     (simp add: ex_world_def new_collection_def ex_server_def)


theorem building_server_becomes_active_witness:
  "wf ex_world
   \<and> override_metadata ex_build_request = Some [(''server_building'', ''5'')]
   \<and> float_of ex_lib ''5'' = Some 5
   \<and> request_creation ex_lib ex_world fresh_request ex_build_request id (ex_draws 7) =
       Inr (setResponseCode fresh_request ACCEPTED,
            dumps ex_lib (creation_response_json ex_building id
                            (ex_server 7 [(''server_building'', ''5'')] ''BUILD'')),
            ex_building)
   \<and> servers ex_building = [0]
   \<and> status (heap ex_building ! 0) = ''BUILD''
   \<and> status (heap (run ex_lib id ex_building [Advance 2, Read ''x'', Advance 2]) ! 0) = ''BUILD''
   \<and> status (heap (run ex_lib id ex_building [Advance 2, Advance 3]) ! 0) = ''ACTIVE''"
proof -
  have md: "override_metadata ex_build_request = Some [(''server_building'', ''5'')]"
    by (simp add: ex_build_request_def ex_create_simps)
  note t = building_server_becomes_active
             [OF ex_wf(1) md _ _ ex_float ex_create_building, simplified]
  from t have a: "servers ex_building = [0]" "status (heap ex_building ! 0) = ''BUILD''"
    by (simp_all add: ex_world_def new_collection_def)
  from t have r: "\<And>ops. forward ops \<Longrightarrow>
      status (heap (run ex_lib id ex_building ops) ! 0) =
        (if (\<exists>op\<in>set ops. is_advance op) \<and> 5 \<le> elapsed ops then ''ACTIVE'' else ''BUILD'')"
    by (simp add: ex_world_def new_collection_def)
  have b: "status (heap (run ex_lib id ex_building [Advance 2, Read ''x'', Advance 2]) ! 0)
             = ''BUILD''"
    by (subst r) (simp_all add: forward_def)
  have c: "status (heap (run ex_lib id ex_building [Advance 2, Advance 3]) ! 0) = ''ACTIVE''"
    by (subst r) (simp_all add: forward_def)
  from md a b c show ?thesis by (simp add: ex_wf ex_float ex_create_building)
qed

lemma ex_delete_building:
  "server_by_id ex_building ''test-server7-id-7'' = Some 0"
  "request_delete ex_lib ex_building fresh_request ''test-server7-id-7'' =
     Inr (setResponseCode fresh_request (JNum 204), [], ex_building\<lparr>servers := []\<rparr>)"
proof -
  show s: "server_by_id ex_building ''test-server7-id-7'' = Some 0"
    by (simp add: server_by_id_def ex_building_simps ex_server_def str_nat_small digit_def)
  show "request_delete ex_lib ex_building fresh_request ''test-server7-id-7'' =
     Inr (setResponseCode fresh_request (JNum 204), [], ex_building\<lparr>servers := []\<rparr>)"
    by (simp add: request_delete_def s ex_building_simps ex_one_simps Let_def)
qed

theorem callback_after_delete_witness:
  "wf ex_building
   \<and> (5, 0) \<in> set (clock_calls ex_building)
   \<and> server_by_id ex_building ''test-server7-id-7'' = Some 0
   \<and> request_delete ex_lib ex_building fresh_request ''test-server7-id-7'' =
       Inr (setResponseCode fresh_request (JNum 204), [], ex_building\<lparr>servers := []\<rparr>)
   \<and> 0 \<notin> set (servers (ex_building\<lparr>servers := []\<rparr>))
   \<and> (5, 0) \<in> set (clock_calls (ex_building\<lparr>servers := []\<rparr>))
   \<and> status (heap (ex_building\<lparr>servers := []\<rparr>) ! 0) = ''BUILD''
   \<and> status (set_active 0 (heap (ex_building\<lparr>servers := []\<rparr>)) ! 0) = ''ACTIVE''
   \<and> servers (advance 5 (ex_building\<lparr>servers := []\<rparr>)) = []
   \<and> status (heap (advance 5 (ex_building\<lparr>servers := []\<rparr>)) ! 0) = ''ACTIVE''"
proof -
  have p: "(5, 0) \<in> set (clock_calls ex_building)" by (simp add: ex_building_simps)
  have code: "response_code (setResponseCode fresh_request (JNum 204)) = JNum 204"
    by (rule response_code_set)
  note t = callback_after_delete [OF ex_wf_building p ex_delete_building code]
  from t have 1: "0 \<notin> set (servers (ex_building\<lparr>servers := []\<rparr>))"
    and 2: "(5, 0) \<in> set (clock_calls (ex_building\<lparr>servers := []\<rparr>))"
    and 3: "status (heap (ex_building\<lparr>servers := []\<rparr>) ! 0) = ''BUILD''"
    and 4: "status (set_active 0 (heap (ex_building\<lparr>servers := []\<rparr>)) ! 0) = ''ACTIVE''"
    and 5: "\<forall>x. 5 \<le> clock_now (ex_building\<lparr>servers := []\<rparr>) + x \<longrightarrow>
             servers (advance x (ex_building\<lparr>servers := []\<rparr>))
               = servers (ex_building\<lparr>servers := []\<rparr>)
             \<and> status (heap (advance x (ex_building\<lparr>servers := []\<rparr>)) ! 0) = ''ACTIVE''"
    by blast+
  from 5 have 6: "servers (advance 5 (ex_building\<lparr>servers := []\<rparr>)) = []
             \<and> status (heap (advance 5 (ex_building\<lparr>servers := []\<rparr>)) ! 0) = ''ACTIVE''"
    by (simp add: ex_building_simps)
  from p 1 2 3 4 6 show ?thesis
    by (simp add: ex_wf_building ex_delete_building)
qed

theorem status_transitions_witness:
  "wf ex_world \<and> (1::nat) < length [Create ex_build_request (ex_draws 7), Advance 5]
   \<and> status_step_ok
        (run ex_lib id ex_world (take 1 [Create ex_build_request (ex_draws 7), Advance 5]))
        (run ex_lib id ex_world
           (take (Suc 1) [Create ex_build_request (ex_draws 7), Advance 5]))"
proof -
  have l: "(1::nat) < length [Create ex_build_request (ex_draws 7), Advance 5]" by simp
  from status_transitions [OF ex_wf(1) l, of ex_lib id] ex_wf(1) l show ?thesis by blast
qed

end
